theory Spec2Isabelle
  imports Main "HOL-Library.Sublist" "HOL-Library.Char_ord" "HOL-Library.List_Lexorder"
    "HOL-Library.Multiset"
begin

section \<open>Strings: the Python string operations used by \<open>mlx_downloader.py\<close>\<close>

text \<open>
  Python strings are modelled as \<open>string\<close> (lists of characters). Only four string
  operations occur in the functions verified here: \<open>str.replace('/', '--')\<close>,
  \<open>str.startswith\<close>, \<open>str.split("--")\<close> and \<open>'-'.join\<close>, besides slicing with
  \<open>[8:]\<close> (which is \<open>drop 8\<close>) and the suffix test made by \<open>glob("*.incomplete")\<close>.
\<close>

definition startswith :: "string \<Rightarrow> string \<Rightarrow> bool" where
  \<comment> \<open>\<open>s.startswith(p)\<close>\<close>
  "startswith s p = (take (length p) s = p)"

definition endswith :: "string \<Rightarrow> string \<Rightarrow> bool" where
  \<comment> \<open>\<open>s.endswith(p)\<close>; what the glob pattern \<open>*p\<close> tests on a file name\<close>
  "endswith s p = (length p \<le> length s \<and> drop (length s - length p) s = p)"

definition replace_slash :: "string \<Rightarrow> string" where
  \<comment> \<open>\<open>s.replace('/', '--')\<close>: every occurrence of the one-character pattern is replaced\<close>
  "replace_slash s = concat (map (\<lambda>c. if c = CHR ''/'' then ''--'' else [c]) s)"

fun split_dashes :: "string \<Rightarrow> string list" where
  \<comment> \<open>\<open>s.split("--")\<close>: scans from the left, cuts at every non-overlapping occurrence of
      the separator, and always returns at least one part\<close>
  "split_dashes [] = [[]]"
| "split_dashes [c] = [[c]]"
| "split_dashes (c # d # cs) =
     (if c = CHR ''-'' \<and> d = CHR ''-'' then [] # split_dashes cs
      else (case split_dashes (d # cs) of
              [] \<Rightarrow> [[c]]
            | p # ps \<Rightarrow> (c # p) # ps))"

fun join :: "string \<Rightarrow> string list \<Rightarrow> string" where
  \<comment> \<open>\<open>sep.join(parts)\<close>\<close>
  "join sep [] = []"
| "join sep [p] = p"
| "join sep (p # q # ps) = p @ sep @ join sep (q # ps)"

section \<open>The directory-name codec\<close>

definition model_dir_name :: "string \<Rightarrow> string" where
  \<comment> \<open>line 88: \<open>model_dir_name = f"models--{model_name.replace('/', '--')}"\<close>\<close>
  "model_dir_name model_name = ''models--'' @ replace_slash model_name"

definition decode_dir_name :: "string \<Rightarrow> string option" where
  \<comment> \<open>lines 162-172, the body of the loop of \<open>discover_local_models\<close>: the name that is
      appended to \<open>models\<close> for a directory called \<open>dir_name\<close>, or \<open>None\<close> when the
      directory is passed over\<close>
  "decode_dir_name dir_name =
     (if startswith dir_name ''models--'' then
        (let model_name = drop 8 dir_name;
             parts = split_dashes model_name
         in if length parts \<ge> 2 then
              (let org = hd parts;
                   model_parts = tl parts
               in Some (org @ ''/'' @ join ''-'' model_parts))
            else None)
      else None)"

definition canonical :: "string \<times> string \<Rightarrow> string" where
  \<comment> \<open>the identifier \<open>(organization, name)\<close> rendered as \<open>organization/name\<close>\<close>
  "canonical ident = fst ident @ ''/'' @ snd ident"

fun contains_dashes :: "string \<Rightarrow> bool" where
  \<comment> \<open>the string has \<open>--\<close> as a substring\<close>
  "contains_dashes (c # d # cs) = ((c = CHR ''-'' \<and> d = CHR ''-'') \<or> contains_dashes (d # cs))"
| "contains_dashes _ = False"

section \<open>The cache directory\<close>

text \<open>
  Every function of the program reads the Hugging Face cache directory
  (\<open>get_cache_path()\<close>, a constant path) through \<open>pathlib\<close>. The directory tree below
  it is modelled as a tree of named nodes; the order of the entries of a directory is
  the order in which the operating system enumerates them. The cache itself is a
  \<open>node option\<close>: \<open>None\<close> when \<open>cache_path\<close> does not exist. Paths are relative to
  \<open>cache_path\<close>, one list element per component. Reading the tree never fails in this
  model (no permission errors on \<open>exists\<close> or \<open>glob\<close>).
\<close>

datatype node = File | Dir "(string \<times> node) list"

type_synonym path = "string list"

fun lookup_path :: "node \<Rightarrow> path \<Rightarrow> node option" where
  "lookup_path n [] = Some n"
| "lookup_path File (k # ks) = None"
| "lookup_path (Dir es) (k # ks) =
     (case map_of es k of None \<Rightarrow> None | Some c \<Rightarrow> lookup_path c ks)"

definition node_at :: "node option \<Rightarrow> path \<Rightarrow> node option" where
  "node_at root p = (case root of None \<Rightarrow> None | Some r \<Rightarrow> lookup_path r p)"

definition path_exists :: "node option \<Rightarrow> path \<Rightarrow> bool" where
  \<comment> \<open>\<open>Path.exists()\<close>\<close>
  "path_exists root p = (node_at root p \<noteq> None)"

definition is_dir :: "node option \<Rightarrow> path \<Rightarrow> bool" where
  \<comment> \<open>\<open>Path.is_dir()\<close>\<close>
  "is_dir root p = (case node_at root p of Some (Dir es) \<Rightarrow> True | _ \<Rightarrow> False)"

definition path_name :: "path \<Rightarrow> string" where
  \<comment> \<open>\<open>Path.name\<close>: the last component, the empty string for the empty path\<close>
  "path_name p = (if p = [] then [] else last p)"

datatype pattern =
    Star                  \<comment> \<open>\<open>"*"\<close>\<close>
  | Star_then string      \<comment> \<open>\<open>"*" + suffix\<close>, as in \<open>"*.incomplete"\<close>\<close>
  | Then_star string      \<comment> \<open>\<open>prefix + "*"\<close>, as in \<open>"models--*"\<close>\<close>

fun fnmatch :: "pattern \<Rightarrow> string \<Rightarrow> bool" where
  "fnmatch Star n = True"
| "fnmatch (Star_then suf) n = endswith n suf"
| "fnmatch (Then_star pre) n = startswith n pre"

definition glob :: "node option \<Rightarrow> path \<Rightarrow> pattern \<Rightarrow> path list" where
  \<comment> \<open>\<open>list(Path.glob(pattern))\<close> for a pattern of one component: the matching entries
      of the directory, nothing when the path is missing or is not a directory\<close>
  "glob root p pat =
     (case node_at root p of
        Some (Dir es) \<Rightarrow> map (\<lambda>e. p @ [fst e]) (filter (\<lambda>e. fnmatch pat (fst e)) es)
      | _ \<Rightarrow> [])"

fun delete_path :: "node \<Rightarrow> path \<Rightarrow> node" where
  \<comment> \<open>the tree without the entry at the path\<close>
  "delete_path n [] = n"
| "delete_path File (k # ks) = File"
| "delete_path (Dir es) [k] = Dir (filter (\<lambda>e. fst e \<noteq> k) es)"
| "delete_path (Dir es) (k # k' # ks) =
     Dir (map (\<lambda>e. if fst e = k then (fst e, delete_path (snd e) (k' # ks)) else e) es)"

definition remove_at :: "node option \<Rightarrow> path \<Rightarrow> node option" where
  \<comment> \<open>the cache without the entry at the path; without anything when the path is the
      cache directory itself\<close>
  "remove_at root p = (if p = [] then None else map_option (\<lambda>r. delete_path r p) root)"

fun replace_path :: "node \<Rightarrow> path \<Rightarrow> node \<Rightarrow> node" where
  \<comment> \<open>the tree with the entry at the path replaced\<close>
  "replace_path n [] x = x"
| "replace_path File (k # ks) x = File"
| "replace_path (Dir es) (k # ks) x =
     Dir (map (\<lambda>e. if fst e = k then (fst e, replace_path (snd e) ks x) else e) es)"

section \<open>Cache inspection: \<open>get_model_status\<close>\<close>

datatype status = not_downloaded | no_blobs | incomplete | complete | unknown

definition get_model_status :: "node option \<Rightarrow> string \<Rightarrow> status \<times> path option \<times> path list" where
  \<comment> \<open>lines 85-110; the first argument is the cache directory the function reads\<close>
  "get_model_status root model_name =
     (let model_path = [model_dir_name model_name] in
      if \<not> path_exists root model_path then (not_downloaded, None, [])
      else
        let blobs_path = model_path @ [''blobs''] in
        if \<not> path_exists root blobs_path then (no_blobs, Some model_path, [])
        else
          let incomplete_files = glob root blobs_path (Star_then ''.incomplete'');
              all_files = glob root blobs_path Star
          in
          if incomplete_files \<noteq> [] then (incomplete, Some model_path, incomplete_files)
          else
            let snapshots_path = model_path @ [''snapshots''] in
            if path_exists root snapshots_path \<and> glob root snapshots_path Star \<noteq> []
            then (complete, Some model_path, all_files)
            else (unknown, Some model_path, all_files))"

section \<open>Discovery: \<open>discover_local_models\<close>\<close>

fun discover_loop :: "node option \<Rightarrow> path list \<Rightarrow> string list \<Rightarrow> string list" where
  \<comment> \<open>lines 158-172: the \<open>for\<close> loop, with the list \<open>models\<close> as accumulator\<close>
  "discover_loop root [] models = models"
| "discover_loop root (model_dir # rest) models =
     (if is_dir root model_dir then
        (case decode_dir_name (path_name model_dir) of
           Some model_name \<Rightarrow> discover_loop root rest (models @ [model_name])
         | None \<Rightarrow> discover_loop root rest models)
      else discover_loop root rest models)"

definition discover_local_models :: "node option \<Rightarrow> string list" where
  \<comment> \<open>lines 149-174; \<open>sorted\<close> on Python strings is the lexicographic order on the
      characters. The function prints nothing and raises nothing.\<close>
  "discover_local_models root =
     (if \<not> path_exists root [] then []
      else sort (discover_loop root (glob root [] (Then_star ''models--'')) []))"

section \<open>Effects: printed lines, library calls, the external collaborators\<close>

text \<open>
  The functions that change anything are modelled by explicit state passing. The state
  holds the cache directory, the state of everything else the libraries depend on
  (network, hub, memory; its type is left open) and the trace of what the program has
  done so far: the lines it printed and the library calls it made, oldest first.
  The text of an exception is not modelled.
\<close>

datatype msg =
    Already_complete string          \<comment> \<open>l. 20: Model ... already downloaded and complete\<close>
  | Verifying                        \<comment> \<open>l. 22, 60: Verifying model loads correctly...\<close>
  | Verified string                  \<comment> \<open>l. 25, 63: Model verified: ...\<close>
  | Verification_failed              \<comment> \<open>l. 33, 71: Model verification failed: ...\<close>
  | Redownloading                    \<comment> \<open>l. 34: Re-downloading due to verification failure...\<close>
  | Found_incomplete nat             \<comment> \<open>l. 39: Found incomplete download with n partial files\<close>
  | Downloading string               \<comment> \<open>l. 42: Downloading: ...\<close>
  | Downloaded_to string             \<comment> \<open>l. 52: Downloaded to: ...\<close>
  | May_be_incomplete status         \<comment> \<open>l. 57: Download may be incomplete (status: ...)\<close>
  | Download_failed                  \<comment> \<open>l. 77: Download failed: ...\<close>
  | Cleaning nat string              \<comment> \<open>l. 118: Cleaning n incomplete files for ...\<close>
  | Removed string                   \<comment> \<open>l. 122: Removed: ...\<close>
  | Failed_to_remove string          \<comment> \<open>l. 124, 146: Failed to remove ...: ...\<close>
  | Not_downloaded_yet string        \<comment> \<open>l. 127: Model ... not downloaded yet\<close>
  | Appears_complete string          \<comment> \<open>l. 130: Model ... appears complete\<close>
  | Not_found_in_cache string        \<comment> \<open>l. 138: Model ... not found in cache\<close>
  | Completely_removed string        \<comment> \<open>l. 143: Completely removed ... from cache\<close>

text \<open>The last argument of a library call is its outcome: \<open>False\<close> when it raised.\<close>

datatype event =
    Print msg
  | Call_load string bool
      \<comment> \<open>\<open>load(model_name)\<close>\<close>
  | Call_snapshot_download string bool bool
      \<comment> \<open>\<open>snapshot_download(repo_id=model_name, ..., force_download=force_redownload)\<close>\<close>
  | Call_unlink path bool
      \<comment> \<open>\<open>file_path.unlink()\<close>\<close>
  | Call_rmtree "path option" bool
      \<comment> \<open>\<open>shutil.rmtree(model_path)\<close>\<close>

record 'e state =
  cache :: "node option"
  env :: 'e
  trace :: "event list"

text \<open>
  What the program does not decide is a parameter: whether \<open>load\<close> raises, whether
  \<open>snapshot_download\<close> raises and which path it returns, what both do to the cache, which
  files the operating system refuses to delete, and what a failing \<open>rmtree\<close> leaves behind.
\<close>

record 'e ext =
  load :: "string \<Rightarrow> node option \<Rightarrow> 'e \<Rightarrow> bool \<times> node option \<times> 'e"
    \<comment> \<open>\<open>mlx_lm.load\<close>: \<open>True\<close> when it returns, \<open>False\<close> when it raises\<close>
  snapshot_download :: "string \<Rightarrow> bool \<Rightarrow> node option \<Rightarrow> 'e \<Rightarrow> string option \<times> node option \<times> 'e"
    \<comment> \<open>\<open>huggingface_hub.snapshot_download\<close>: the local path, \<open>None\<close> when it raises\<close>
  unlink_denied :: "path \<Rightarrow> bool"
    \<comment> \<open>the operating system refuses to delete the file at this path\<close>
  rmtree_fault :: "path \<Rightarrow> node \<Rightarrow> node option"
    \<comment> \<open>\<open>None\<close>: the tree is deleted; \<open>Some r\<close>: \<open>rmtree\<close> raises and leaves \<open>r\<close> behind\<close>

definition emit :: "msg \<Rightarrow> 'e state \<Rightarrow> 'e state" where
  \<comment> \<open>\<open>print(...)\<close>\<close>
  "emit m s = s\<lparr>trace := trace s @ [Print m]\<rparr>"

definition call_load :: "'e ext \<Rightarrow> string \<Rightarrow> 'e state \<Rightarrow> bool \<times> 'e state" where
  "call_load X model_name s =
     (case load X model_name (cache s) (env s) of
        (ok, c, e) \<Rightarrow>
          (ok, s\<lparr>cache := c, env := e, trace := trace s @ [Call_load model_name ok]\<rparr>))"

definition call_snapshot_download ::
  "'e ext \<Rightarrow> string \<Rightarrow> bool \<Rightarrow> 'e state \<Rightarrow> string option \<times> 'e state" where
  "call_snapshot_download X model_name force s =
     (case snapshot_download X model_name force (cache s) (env s) of
        (r, c, e) \<Rightarrow>
          (r, s\<lparr>cache := c, env := e,
                trace := trace s @ [Call_snapshot_download model_name force (r \<noteq> None)]\<rparr>))"

definition unlink :: "'e ext \<Rightarrow> path \<Rightarrow> 'e state \<Rightarrow> bool \<times> 'e state" where
  \<comment> \<open>\<open>Path.unlink()\<close>: \<open>False\<close> when it raises, which it does on a missing path, on a
      directory and when the operating system refuses\<close>
  "unlink X p s =
     (if node_at (cache s) p = Some File \<and> \<not> unlink_denied X p
      then (True, s\<lparr>cache := remove_at (cache s) p,
                    trace := trace s @ [Call_unlink p True]\<rparr>)
      else (False, s\<lparr>trace := trace s @ [Call_unlink p False]\<rparr>))"

definition rmtree :: "'e ext \<Rightarrow> path option \<Rightarrow> 'e state \<Rightarrow> bool \<times> 'e state" where
  \<comment> \<open>\<open>shutil.rmtree(path)\<close>: \<open>False\<close> when it raises, which it does on \<open>None\<close>, on a missing
      path, on a path that is not a directory, and when a deletion inside the tree fails\<close>
  "rmtree X po s =
     (let failed = (False, s\<lparr>trace := trace s @ [Call_rmtree po False]\<rparr>) in
      case po of
        None \<Rightarrow> failed
      | Some p \<Rightarrow>
         (case node_at (cache s) p of
            Some (Dir es) \<Rightarrow>
              (case rmtree_fault X p (Dir es) of
                 None \<Rightarrow>
                   (True, s\<lparr>cache := remove_at (cache s) p,
                            trace := trace s @ [Call_rmtree po True]\<rparr>)
               | Some residue \<Rightarrow>
                   (False, s\<lparr>cache := map_option (\<lambda>r. replace_path r p residue) (cache s),
                             trace := trace s @ [Call_rmtree po False]\<rparr>))
          | _ \<Rightarrow> failed))"

fun is_call :: "event \<Rightarrow> bool" where
  "is_call (Print m) = False"
| "is_call e = True"

definition calls :: "event list \<Rightarrow> event list" where
  \<comment> \<open>the library calls of a trace, without the printed lines\<close>
  "calls t = filter is_call t"

fun unlink_target :: "event \<Rightarrow> path option" where
  "unlink_target (Call_unlink p ok) = Some p"
| "unlink_target e = None"

definition new_events :: "'e state \<Rightarrow> 'e state \<Rightarrow> event list" where
  \<comment> \<open>what a run from state \<open>s\<close> to state \<open>s'\<close> added to the trace\<close>
  "new_events s s' = drop (length (trace s)) (trace s')"

section \<open>Cache mutation: \<open>clean_incomplete_model\<close> and \<open>remove_model\<close>\<close>

fun clean_loop :: "'e ext \<Rightarrow> path list \<Rightarrow> 'e state \<Rightarrow> 'e state" where
  \<comment> \<open>lines 119-124: the \<open>for\<close> loop with its \<open>try\<close>/\<open>except\<close>\<close>
  "clean_loop X [] s = s"
| "clean_loop X (file_path # rest) s =
     (case unlink X file_path s of
        (True, s') \<Rightarrow> clean_loop X rest (emit (Removed (path_name file_path)) s')
      | (False, s') \<Rightarrow> clean_loop X rest (emit (Failed_to_remove (path_name file_path)) s'))"

definition clean_incomplete_model :: "'e ext \<Rightarrow> string \<Rightarrow> 'e state \<Rightarrow> bool \<times> 'e state" where
  \<comment> \<open>lines 112-131\<close>
  "clean_incomplete_model X model_name s =
     (case get_model_status (cache s) model_name of
        (status, _, files) \<Rightarrow>
          let incomplete_files = (if status = incomplete then files else []) in
          if status = incomplete then
            (True, clean_loop X incomplete_files
                     (emit (Cleaning (length incomplete_files) model_name) s))
          else if status = not_downloaded then
            (False, emit (Not_downloaded_yet model_name) s)
          else
            (False, emit (Appears_complete model_name) s))"

definition remove_model :: "'e ext \<Rightarrow> string \<Rightarrow> 'e state \<Rightarrow> bool \<times> 'e state" where
  \<comment> \<open>lines 133-147\<close>
  "remove_model X model_name s =
     (case get_model_status (cache s) model_name of
        (status, model_path, _) \<Rightarrow>
          if status = not_downloaded then
            (False, emit (Not_found_in_cache model_name) s)
          else
            (case rmtree X model_path s of
               (True, s') \<Rightarrow> (True, emit (Completely_removed model_name) s')
             | (False, s') \<Rightarrow> (False, emit (Failed_to_remove model_name) s')))"

section \<open>Orchestration: \<open>download_model\<close>\<close>

definition fetch_and_verify ::
  "'e ext \<Rightarrow> string \<Rightarrow> bool \<Rightarrow> bool \<Rightarrow> 'e state \<Rightarrow> bool \<times> 'e state" where
  \<comment> \<open>lines 42-78 of \<open>download_model\<close>: the download and the verification after it\<close>
  "fetch_and_verify X model_name verify force_redownload s =
     (let s1 = emit (Downloading model_name) s in
      case call_snapshot_download X model_name force_redownload s1 of
        (None, s2) \<Rightarrow> (False, emit Download_failed s2)
      | (Some local_path, s2) \<Rightarrow>
          let s3 = emit (Downloaded_to local_path) s2;
              final_status = fst (get_model_status (cache s3) model_name);
              s4 = (if final_status \<noteq> complete then emit (May_be_incomplete final_status) s3
                    else s3)
          in
          if verify then
            (case call_load X model_name (emit Verifying s4) of
               (True, s5) \<Rightarrow> (True, emit (Verified model_name) s5)
             | (False, s5) \<Rightarrow> (False, emit Verification_failed s5))
          else (True, s4))"

definition clean_then_fetch ::
  "'e ext \<Rightarrow> string \<Rightarrow> bool \<Rightarrow> bool \<Rightarrow> status \<Rightarrow> path list \<Rightarrow> 'e state \<Rightarrow> bool \<times> 'e state" where
  \<comment> \<open>lines 38-78 of \<open>download_model\<close>; \<open>status\<close> and \<open>incomplete_files\<close> are the values
      assigned on line 17\<close>
  "clean_then_fetch X model_name verify force_redownload status incomplete_files s =
     (let s1 = (if status = incomplete then
                  snd (clean_incomplete_model X model_name
                         (emit (Found_incomplete (length incomplete_files)) s))
                else s)
      in fetch_and_verify X model_name verify force_redownload s1)"

definition download_model :: "'e ext \<Rightarrow> string \<Rightarrow> bool \<Rightarrow> bool \<Rightarrow> 'e state \<Rightarrow> bool \<times> 'e state" where
  \<comment> \<open>lines 13-78\<close>
  "download_model X model_name verify force_redownload s =
     (case get_model_status (cache s) model_name of
        (status, model_path, incomplete_files) \<Rightarrow>
          if status = complete \<and> \<not> force_redownload then
            (let s1 = emit (Already_complete model_name) s in
             if verify then
               (case call_load X model_name (emit Verifying s1) of
                  (True, s2) \<Rightarrow> (True, emit (Verified model_name) s2)
                | (False, s2) \<Rightarrow>
                    clean_then_fetch X model_name verify force_redownload status
                      incomplete_files (emit Redownloading (emit Verification_failed s2)))
             else (True, s1))
          else
            clean_then_fetch X model_name verify force_redownload status incomplete_files s)"

section \<open>The classification as the specification words it\<close>

definition listdir :: "node option \<Rightarrow> path \<Rightarrow> string list" where
  \<comment> \<open>the names of the entries of a directory; nothing for a file or a missing path\<close>
  "listdir root p = (case node_at root p of Some (Dir es) \<Rightarrow> map fst es | _ \<Rightarrow> [])"

definition root_path :: "string \<Rightarrow> path" where
  \<comment> \<open>\<open>root_path = cache_root / encode(identifier)\<close>\<close>
  "root_path model_name = [model_dir_name model_name]"

definition blobs_dir :: "string \<Rightarrow> path" where
  "blobs_dir model_name = root_path model_name @ [''blobs'']"

definition snapshots_dir :: "string \<Rightarrow> path" where
  "snapshots_dir model_name = root_path model_name @ [''snapshots'']"

definition has_marker :: "string \<Rightarrow> bool" where
  \<comment> \<open>the name ends with the partial-download marker suffix\<close>
  "has_marker n = suffix ''.incomplete'' n"

definition spec_status :: "node option \<Rightarrow> string \<Rightarrow> status" where
  \<comment> \<open>the five rules of the specification, first match wins\<close>
  "spec_status root model_name =
     (if \<not> path_exists root (root_path model_name) then not_downloaded
      else if \<not> path_exists root (blobs_dir model_name) then no_blobs
      else if list_ex has_marker (listdir root (blobs_dir model_name)) then incomplete
      else if path_exists root (snapshots_dir model_name)
              \<and> listdir root (snapshots_dir model_name) \<noteq> [] then complete
      else unknown)"

fun is_file :: "node \<Rightarrow> bool" where
  "is_file File = True"
| "is_file (Dir es) = False"

definition kind_at :: "node option \<Rightarrow> path \<Rightarrow> bool option" where
  \<comment> \<open>what is at a path: nothing, a file (\<open>Some True\<close>) or a directory (\<open>Some False\<close>)\<close>
  "kind_at root p = map_option is_file (node_at root p)"

definition rmtree_succeeds :: "'e ext \<Rightarrow> node option \<Rightarrow> path \<Rightarrow> bool" where
  \<comment> \<open>the path is a directory and nothing inside it resists deletion\<close>
  "rmtree_succeeds X root p =
     (case node_at root p of Some (Dir es) \<Rightarrow> rmtree_fault X p (Dir es) = None | _ \<Rightarrow> False)"

definition download_outcome :: "string \<Rightarrow> bool \<Rightarrow> bool \<Rightarrow> bool \<Rightarrow> event list \<Rightarrow> bool" where
  \<comment> \<open>the library calls of steps 3 to 5 of \<open>ensure_downloaded\<close> and the result they
      give: a failed fetch and \<open>False\<close>; without \<open>verify\<close>, a fetch and \<open>True\<close>; with
      \<open>verify\<close>, a fetch, then a load whose outcome is the result\<close>
  "download_outcome m verify force result cs =
     ((cs = [Call_snapshot_download m force False] \<and> \<not> result)
      \<or> (\<not> verify \<and> cs = [Call_snapshot_download m force True] \<and> result)
      \<or> (verify \<and> cs = [Call_snapshot_download m force True, Call_load m result]))"

definition model_dir_names :: "node option \<Rightarrow> string list" where
  \<comment> \<open>the names of the entries of the cache root that match \<open>models--*\<close> and are
      directories, in the order of the directory listing\<close>
  "model_dir_names root =
     filter (\<lambda>n. prefix ''models--'' n \<and> is_dir root [n]) (listdir root [])"

section \<open>Example caches\<close>

definition cache_partial :: "node option" where
  \<comment> \<open>one model with a partial blob, other blobs and a snapshot\<close>
  "cache_partial = Some (Dir [(''models--acme--Foo-7B'',
      Dir [(''blobs'', Dir [(''abc123.incomplete'', File), (''def456'', File),
                            (''ghi.INCOMPLETE'', File), (''jkl.incomplete.bak'', File)]),
           (''snapshots'', Dir [(''main'', Dir [])])])])"

definition cache_done :: "node option" where
  \<comment> \<open>one model with a blob and a snapshot\<close>
  "cache_done = Some (Dir [(''models--acme--Foo-7B'',
      Dir [(''blobs'', Dir [(''def456'', File)]),
           (''snapshots'', Dir [(''main'', Dir [])])])])"

definition cache_bare :: "node option" where
  \<comment> \<open>one model directory with nothing inside\<close>
  "cache_bare = Some (Dir [(''models--acme--Foo-7B'', Dir [])])"

definition cache_two :: "node option" where
  \<comment> \<open>two model directories\<close>
  "cache_two = Some (Dir [(''models--zeta--Bar'', Dir []), (''models--acme--Foo-7B'', Dir [])])"

definition cache_mixed :: "node option" where
  \<comment> \<open>the same two model directories among entries that are not model directories\<close>
  "cache_mixed = Some (Dir [(''models--zeta--Bar'', Dir []), (''randomdir'', Dir []),
      (''models--broken'', Dir []), (''models--acme--Foo-7B'', Dir [])])"

definition cache_partial2 :: "node option" where
  \<comment> \<open>one model with two partial blobs and no snapshot\<close>
  "cache_partial2 = Some (Dir [(''models--acme--Foo-7B'',
      Dir [(''blobs'', Dir [(''abc123.incomplete'', File), (''def456'', File),
                            (''xyz789.incomplete'', File)])])])"

section \<open>Example environments\<close>

definition fresh :: "node option \<Rightarrow> unit state" where
  \<comment> \<open>the state at the start of a run on the given cache\<close>
  "fresh c = \<lparr>cache = c, env = (), trace = []\<rparr>"

definition X_ok :: "unit ext" where
  \<comment> \<open>nothing fails and the libraries leave the cache as it is\<close>
  "X_ok = \<lparr>load = (\<lambda>m c e. (True, c, e)),
           snapshot_download = (\<lambda>m force c e. (Some ''snapshots/main'', c, e)),
           unlink_denied = (\<lambda>p. False),
           rmtree_fault = (\<lambda>p n. None)\<rparr>"

definition X_deny_abc :: "unit ext" where
  \<comment> \<open>the operating system refuses to delete one of the partial blobs\<close>
  "X_deny_abc = X_ok\<lparr>unlink_denied :=
     (\<lambda>p. p = [''models--acme--Foo-7B'', ''blobs'', ''abc123.incomplete''])\<rparr>"

definition X_rm_fault :: "unit ext" where
  \<comment> \<open>\<open>rmtree\<close> fails part way and leaves an empty \<open>blobs\<close> directory behind\<close>
  "X_rm_fault = X_ok\<lparr>rmtree_fault := (\<lambda>p n. Some (Dir [(''blobs'', Dir [])]))\<rparr>"

definition X_offline :: "unit ext" where
  \<comment> \<open>\<open>snapshot_download\<close> raises\<close>
  "X_offline = X_ok\<lparr>snapshot_download := (\<lambda>m f c e. (None, c, e))\<rparr>"

definition X_bad_load :: "unit ext" where
  \<comment> \<open>\<open>load\<close> raises\<close>
  "X_bad_load = X_ok\<lparr>load := (\<lambda>m c e. (False, c, e))\<rparr>"

definition X_heal :: "bool ext" where
  \<comment> \<open>\<open>load\<close> raises until \<open>snapshot_download\<close> has run; the state of the
      environment is whether it has\<close>
  "X_heal = \<lparr>load = (\<lambda>m c e. (e, c, e)),
             snapshot_download = (\<lambda>m f c e. (Some ''snapshots/main'', c, True)),
             unlink_denied = (\<lambda>p. False),
             rmtree_fault = (\<lambda>p n. None)\<rparr>"

definition unrepaired :: "node option \<Rightarrow> bool state" where
  \<comment> \<open>the state at the start of a run in which \<open>snapshot_download\<close> has not run yet\<close>
  "unrepaired c = \<lparr>cache = c, env = False, trace = []\<rparr>"

section \<open>Properties of the string operations\<close>

lemma split_dashes_nonempty: "split_dashes s \<noteq> []"
  by (induction s rule: split_dashes.induct) (auto split: list.splits)

lemma join_split_dashes: "join ''--'' (split_dashes s) = s"
proof (induction s rule: split_dashes.induct)
  case (3 c d cs)
  show ?case
  proof (cases "c = CHR ''-'' \<and> d = CHR ''-''")
    case True
    with 3 show ?thesis
      by (cases "split_dashes cs") (auto simp: split_dashes_nonempty)
  next
    case False
    with 3 show ?thesis
      by (cases "split_dashes (d # cs)"; cases "tl (split_dashes (d # cs))") auto
  qed
qed simp_all

lemma endswith_suffix: "endswith s p \<longleftrightarrow> suffix p s"
proof
  assume "endswith s p"
  then have "s = take (length s - length p) s @ p"
    by (metis append_take_drop_id endswith_def)
  then show "suffix p s" by (metis suffixI)
next
  assume "suffix p s"
  then obtain zs where "s = zs @ p" by (auto simp: suffix_def)
  then show "endswith s p" by (simp add: endswith_def)
qed

lemma has_marker_code: "has_marker n = endswith n ''.incomplete''"
  by (simp add: has_marker_def endswith_suffix)

lemma split_dashes_plain: "\<not> contains_dashes s \<Longrightarrow> split_dashes s = [s]"
  by (induction s rule: split_dashes.induct) auto

lemma split_dashes_first:
  "\<not> contains_dashes p \<Longrightarrow> p = [] \<or> last p \<noteq> CHR ''-''
   \<Longrightarrow> split_dashes (p @ ''--'' @ rest) = p # split_dashes rest"
proof (induction p rule: split_dashes.induct)
  case 1
  then show ?case by simp
next
  case (2 c)
  then show ?case by simp
next
  case (3 c d cs)
  then show ?case by (auto split: if_splits)
qed

text \<open>
  \<open>split_dashes\<close> cuts at the leftmost occurrences: it returns the one list of parts
  that joins back to the string, has no \<open>--\<close> inside a part and no part before a
  separator ending in a dash.
\<close>

lemma split_dashes_join:
  "ps \<noteq> [] \<Longrightarrow> \<forall>p \<in> set ps. \<not> contains_dashes p
   \<Longrightarrow> \<forall>p \<in> set (butlast ps). p = [] \<or> last p \<noteq> CHR ''-''
   \<Longrightarrow> split_dashes (join ''--'' ps) = ps"
proof (induction "''--''" ps rule: join.induct)
  case 1
  then show ?case by simp
next
  case (2 p)
  then show ?case by (simp add: split_dashes_plain)
next
  case (3 p q ps)
  then show ?case using split_dashes_first [of p "join ''--'' (q # ps)"] by simp
qed

lemma replace_slash_plain: "CHR ''/'' \<notin> set s \<Longrightarrow> replace_slash s = s"
  by (induction s) (auto simp: replace_slash_def)

lemma replace_slash_append: "replace_slash (a @ b) = replace_slash a @ replace_slash b"
  by (simp add: replace_slash_def)

lemma startswith_prefix: "startswith s p \<longleftrightarrow> prefix p s"
  by (metis append_eq_conv_conj prefix_def startswith_def)

section \<open>Properties of the codec\<close>

lemma decode_prefixed:
  "decode_dir_name (''models--'' @ r) =
     (if 2 \<le> length (split_dashes r)
      then Some (hd (split_dashes r) @ ''/'' @ join ''-'' (tl (split_dashes r)))
      else None)"
  by (simp add: decode_dir_name_def startswith_def Let_def)

text \<open>
  C4. Decoding a directory name fails unless the name starts with \<open>models--\<close> and the
  rest, split on \<open>--\<close>, has at least two parts; on success the organization is the first
  part and the name is the other parts joined with a single dash, so that
  \<open>models--org--a--b\<close> decodes to \<open>org/a-b\<close>.
\<close>

theorem decode_dir_name_parts:
  "decode_dir_name d =
     (if prefix ''models--'' d \<and> 2 \<le> length (split_dashes (drop 8 d))
      then Some (canonical (hd (split_dashes (drop 8 d)),
                            join ''-'' (tl (split_dashes (drop 8 d)))))
      else None)
   \<and> decode_dir_name ''models--org--a--b'' = Some ''org/a-b''"
  by (simp add: decode_dir_name_def Let_def startswith_prefix canonical_def)

theorem decode_dir_name_parts_witness:
  "prefix ''models--'' ''models--org--a--b''
   \<and> split_dashes (drop 8 ''models--org--a--b'') = [''org'', ''a'', ''b'']
   \<and> decode_dir_name ''models--org--a--b'' = Some (canonical (''org'', ''a-b''))
   \<and> decode_dir_name ''models--org'' = None
   \<and> decode_dir_name ''randomdir'' = None"
proof -
  have "prefix ''models--'' ''models--org--a--b''" "\<not> prefix ''models--'' ''randomdir''"
    "prefix ''models--'' ''models--org''"
    by (simp_all add: startswith_prefix [symmetric] startswith_def)
  moreover have "split_dashes (drop 8 ''models--org--a--b'') = [''org'', ''a'', ''b'']"
    "split_dashes (drop 8 ''models--org'') = [''org'']"
    by simp_all
  ultimately show ?thesis
    using decode_dir_name_parts [of "''models--org--a--b''"]
      decode_dir_name_parts [of "''models--org''"]
      decode_dir_name_parts [of "''randomdir''"]
    by (simp add: canonical_def)
qed

text \<open>
  C3, as stated: decoding the encoded name gives the identifier back whenever the name
  component has no \<open>--\<close>. This fails for the identifier \<open>a-/b\<close>: its directory is
  \<open>models--a---b\<close>, which is cut after \<open>a\<close> and decodes to \<open>a/-b\<close>.
\<close>

theorem roundtrip_counterexample:
  "\<not> contains_dashes ''b''
   \<and> model_dir_name (canonical (''a-'', ''b'')) = ''models--a---b''
   \<and> decode_dir_name (model_dir_name (canonical (''a-'', ''b''))) = Some ''a/-b''
   \<and> decode_dir_name (model_dir_name (canonical (''a-'', ''b''))) \<noteq> Some (canonical (''a-'', ''b''))"
  by (simp add: decode_dir_name_def startswith_def model_dir_name_def canonical_def
      replace_slash_def)

text \<open>
  The other conditions are needed as well: an organization with \<open>--\<close> inside, or a
  slash inside the name, is not restored either.
\<close>

lemma roundtrip_other_failures:
  "decode_dir_name (model_dir_name (canonical (''a--b'', ''c''))) = Some ''a/b-c''"
  "decode_dir_name (model_dir_name (canonical (''a'', ''b/c''))) = Some ''a/b-c''"
  by (simp_all add: decode_dir_name_def startswith_def model_dir_name_def canonical_def
      replace_slash_def)

text \<open>
  C3, amended: for every identifier whose organization and name contain neither a slash
  nor \<open>--\<close>, and whose organization does not end in a dash, decoding the encoded
  directory name gives the identifier back.
\<close>

theorem roundtrip:
  assumes "CHR ''/'' \<notin> set org" "CHR ''/'' \<notin> set name"
    and "\<not> contains_dashes org" "org = [] \<or> last org \<noteq> CHR ''-''"
    and "\<not> contains_dashes name"
  shows "decode_dir_name (model_dir_name (canonical (org, name))) = Some (canonical (org, name))"
proof -
  have enc: "model_dir_name (org @ ''/'' @ name) = ''models--'' @ org @ ''--'' @ name"
  proof -
    have "replace_slash ''/'' = ''--''" by (simp add: replace_slash_def)
    moreover have "replace_slash org = org" "replace_slash name = name"
      using assms(1,2) by (simp_all add: replace_slash_plain)
    ultimately have "replace_slash (org @ ''/'' @ name) = org @ ''--'' @ name"
      by (simp only: replace_slash_append)
    then show ?thesis by (simp add: model_dir_name_def)
  qed
  have "split_dashes (org @ ''--'' @ name) = [org, name]"
    using split_dashes_first [of org name] assms(3-5) by (simp add: split_dashes_plain)
  with decode_prefixed [of "org @ ''--'' @ name"]
  have "decode_dir_name (''models--'' @ org @ ''--'' @ name) = Some (org @ ''/'' @ name)"
    by simp
  then show ?thesis
    by (simp only: enc canonical_def fst_conv snd_conv)
qed

theorem roundtrip_witness:
  "CHR ''/'' \<notin> set ''mlx-community'' \<and> CHR ''/'' \<notin> set ''Llama-3.2-3B-Instruct-4bit''
   \<and> \<not> contains_dashes ''mlx-community'' \<and> last ''mlx-community'' \<noteq> CHR ''-''
   \<and> \<not> contains_dashes ''Llama-3.2-3B-Instruct-4bit''
   \<and> decode_dir_name (model_dir_name ''mlx-community/Llama-3.2-3B-Instruct-4bit'')
       = Some ''mlx-community/Llama-3.2-3B-Instruct-4bit''"
proof -
  have h: "CHR ''/'' \<notin> set ''mlx-community''" "CHR ''/'' \<notin> set ''Llama-3.2-3B-Instruct-4bit''"
    "\<not> contains_dashes ''mlx-community''"
    "''mlx-community'' = [] \<or> last ''mlx-community'' \<noteq> CHR ''-''"
    "\<not> contains_dashes ''Llama-3.2-3B-Instruct-4bit''"
    by simp_all
  from roundtrip [OF h] h show ?thesis by (simp add: canonical_def)
qed

section \<open>Properties of \<open>get_model_status\<close>\<close>

lemma glob_listdir:
  "glob root p pat = map (\<lambda>n. p @ [n]) (filter (fnmatch pat) (listdir root p))"
  by (auto simp: glob_def listdir_def filter_map comp_def split: option.splits node.splits)

lemma glob_star: "glob root p Star = map (\<lambda>n. p @ [n]) (listdir root p)"
  by (simp add: glob_listdir)

lemma glob_marker:
  "glob root p (Star_then ''.incomplete'')
     = map (\<lambda>n. p @ [n]) (filter has_marker (listdir root p))"
  by (simp add: glob_listdir has_marker_def endswith_suffix cong: filter_cong)

lemma listdir_missing: "\<not> path_exists root p \<Longrightarrow> listdir root p = []"
  by (simp add: path_exists_def listdir_def)

lemma blobs_needs_root:
  "path_exists root (blobs_dir m) \<Longrightarrow> path_exists root (root_path m)"
  by (auto simp: path_exists_def blobs_dir_def root_path_def node_at_def
      split: option.splits node.splits elim: lookup_path.elims)

lemma get_model_status_eq:
  "get_model_status root m =
     (if \<not> path_exists root (root_path m) then (not_downloaded, None, [])
      else if \<not> path_exists root (blobs_dir m) then (no_blobs, Some (root_path m), [])
      else if filter has_marker (listdir root (blobs_dir m)) \<noteq> [] then
        (incomplete, Some (root_path m),
         map (\<lambda>n. blobs_dir m @ [n]) (filter has_marker (listdir root (blobs_dir m))))
      else if path_exists root (snapshots_dir m) \<and> listdir root (snapshots_dir m) \<noteq> [] then
        (complete, Some (root_path m), map (\<lambda>n. blobs_dir m @ [n]) (listdir root (blobs_dir m)))
      else
        (unknown, Some (root_path m), map (\<lambda>n. blobs_dir m @ [n]) (listdir root (blobs_dir m))))"
  by (simp add: get_model_status_def Let_def root_path_def blobs_dir_def
      snapshots_dir_def glob_marker glob_star)

lemma acme_paths:
  "root_path ''acme/Foo-7B'' = [''models--acme--Foo-7B'']"
  "blobs_dir ''acme/Foo-7B'' = [''models--acme--Foo-7B'', ''blobs'']"
  "snapshots_dir ''acme/Foo-7B'' = [''models--acme--Foo-7B'', ''snapshots'']"
  by (simp_all add: root_path_def blobs_dir_def snapshots_dir_def model_dir_name_def
      replace_slash_def)

lemma listdir_partial:
  "listdir cache_partial [''models--acme--Foo-7B'', ''blobs'']
     = [''abc123.incomplete'', ''def456'', ''ghi.INCOMPLETE'', ''jkl.incomplete.bak'']"
  by (simp add: listdir_def cache_partial_def node_at_def)

lemma marker_partial:
  "has_marker ''abc123.incomplete''" "\<not> has_marker ''def456''"
  "\<not> has_marker ''ghi.INCOMPLETE''" "\<not> has_marker ''jkl.incomplete.bak''"
  by (simp_all add: has_marker_code endswith_def)

lemma status_partial: "get_model_status cache_partial ''acme/Foo-7B''
  = (incomplete, Some [''models--acme--Foo-7B''],
     [[''models--acme--Foo-7B'', ''blobs'', ''abc123.incomplete'']])"
proof -
  have "path_exists cache_partial [''models--acme--Foo-7B'']"
    "path_exists cache_partial [''models--acme--Foo-7B'', ''blobs'']"
    by (simp_all add: cache_partial_def path_exists_def node_at_def)
  then show ?thesis
    by (simp add: get_model_status_eq acme_paths listdir_partial marker_partial)
qed

lemma status_done: "get_model_status cache_done ''acme/Foo-7B''
  = (complete, Some [''models--acme--Foo-7B''], [[''models--acme--Foo-7B'', ''blobs'', ''def456'']])"
  by (simp add: get_model_status_eq acme_paths listdir_def cache_done_def path_exists_def
      node_at_def has_marker_code endswith_def)

lemma status_bare: "get_model_status cache_bare ''acme/Foo-7B''
  = (no_blobs, Some [''models--acme--Foo-7B''], [])"
  by (simp add: get_model_status_eq acme_paths listdir_def cache_bare_def path_exists_def
      node_at_def)

lemma status_absent: "get_model_status None m = (not_downloaded, None, [])"
  by (simp add: get_model_status_eq path_exists_def node_at_def)

text \<open>
  C1. For every model name and every cache, the status returned by \<open>get_model_status\<close>
  is the one the five rules of the specification give when they are tried in order:
  no root path, \<open>not_downloaded\<close>; else no \<open>blobs\<close>, \<open>no_blobs\<close>; else some entry of
  \<open>blobs\<close> ending in the marker suffix, \<open>incomplete\<close> (whatever \<open>snapshots\<close> holds); else
  \<open>snapshots\<close> existing with an entry, \<open>complete\<close>; else \<open>unknown\<close>.
\<close>

theorem status_first_match:
  "fst (get_model_status root model_name) = spec_status root model_name"
  by (simp add: get_model_status_eq spec_status_def list_ex_iff filter_empty_conv)

theorem status_first_match_witness:
  "spec_status cache_partial ''acme/Foo-7B'' = incomplete
   \<and> path_exists cache_partial (snapshots_dir ''acme/Foo-7B'')
   \<and> listdir cache_partial (snapshots_dir ''acme/Foo-7B'') \<noteq> []"
proof -
  have "fst (get_model_status cache_partial ''acme/Foo-7B'') = incomplete"
    by (simp add: status_partial)
  moreover have "path_exists cache_partial (snapshots_dir ''acme/Foo-7B'')
     \<and> listdir cache_partial (snapshots_dir ''acme/Foo-7B'') \<noteq> []"
    by (simp add: acme_paths cache_partial_def path_exists_def node_at_def listdir_def)
  ultimately show ?thesis
    using status_first_match [of cache_partial "''acme/Foo-7B''"] by simp
qed

text \<open>
  C9. The status is \<open>incomplete\<close> exactly when some entry of \<open>blobs\<close> has a name ending in
  \<open>.incomplete\<close>, and an entry of \<open>blobs\<close> is among the incomplete files returned exactly
  when its own name ends in \<open>.incomplete\<close>.
\<close>

theorem marker_suffix_decides:
  "(fst (get_model_status root m) = incomplete
      \<longleftrightarrow> (\<exists>n \<in> set (listdir root (blobs_dir m)). suffix ''.incomplete'' n))
   \<and> (\<forall>n \<in> set (listdir root (blobs_dir m)).
        (fst (get_model_status root m) = incomplete
           \<and> blobs_dir m @ [n] \<in> set (snd (snd (get_model_status root m))))
        \<longleftrightarrow> suffix ''.incomplete'' n)"
proof -
  have ex: "path_exists root (blobs_dir m) \<and> path_exists root (root_path m)"
    if "n \<in> set (listdir root (blobs_dir m))" for n
  proof -
    have "path_exists root (blobs_dir m)"
    proof (rule ccontr)
      assume "\<not> path_exists root (blobs_dir m)"
      then have "listdir root (blobs_dir m) = []" by (rule listdir_missing)
      with that show False by simp
    qed
    then show ?thesis by (simp add: blobs_needs_root)
  qed
  show ?thesis
    using ex
    by (auto simp: get_model_status_eq filter_empty_conv has_marker_def listdir_missing)
qed

theorem marker_suffix_decides_witness:
  "''abc123.incomplete'' \<in> set (listdir cache_partial (blobs_dir ''acme/Foo-7B''))
   \<and> suffix ''.incomplete'' ''abc123.incomplete''
   \<and> fst (get_model_status cache_partial ''acme/Foo-7B'') = incomplete
   \<and> blobs_dir ''acme/Foo-7B'' @ [''abc123.incomplete'']
        \<in> set (snd (snd (get_model_status cache_partial ''acme/Foo-7B'')))
   \<and> ''ghi.INCOMPLETE'' \<in> set (listdir cache_partial (blobs_dir ''acme/Foo-7B''))
   \<and> \<not> suffix ''.incomplete'' ''ghi.INCOMPLETE''
   \<and> blobs_dir ''acme/Foo-7B'' @ [''ghi.INCOMPLETE'']
        \<notin> set (snd (snd (get_model_status cache_partial ''acme/Foo-7B'')))"
proof -
  have a: "suffix ''.incomplete'' ''abc123.incomplete''"
    by (simp add: endswith_suffix [symmetric] endswith_def)
  have b: "\<not> suffix ''.incomplete'' ''ghi.INCOMPLETE''"
    by (simp add: endswith_suffix [symmetric] endswith_def)
  have c: "''abc123.incomplete'' \<in> set (listdir cache_partial (blobs_dir ''acme/Foo-7B''))"
    "''ghi.INCOMPLETE'' \<in> set (listdir cache_partial (blobs_dir ''acme/Foo-7B''))"
    by (simp_all add: acme_paths listdir_partial)
  from marker_suffix_decides [of cache_partial "''acme/Foo-7B''"] a b c show ?thesis
    by blast
qed

text \<open>
  C10. The file list returned by \<open>get_model_status\<close> is empty when the status is
  \<open>not_downloaded\<close> or \<open>no_blobs\<close>; it is the list of the entries of \<open>blobs\<close> whose name
  ends in the marker suffix, and is not empty, when the status is \<open>incomplete\<close>; and it
  is the list of all entries of \<open>blobs\<close> when the status is \<open>complete\<close> or \<open>unknown\<close>.
\<close>

theorem files_by_status:
  "(fst (get_model_status root m) \<in> {not_downloaded, no_blobs}
      \<longrightarrow> snd (snd (get_model_status root m)) = [])
   \<and> (fst (get_model_status root m) = incomplete
      \<longrightarrow> snd (snd (get_model_status root m))
            = map (\<lambda>n. blobs_dir m @ [n]) (filter has_marker (listdir root (blobs_dir m)))
          \<and> snd (snd (get_model_status root m)) \<noteq> [])
   \<and> (fst (get_model_status root m) \<in> {complete, unknown}
      \<longrightarrow> snd (snd (get_model_status root m))
            = map (\<lambda>n. blobs_dir m @ [n]) (listdir root (blobs_dir m)))"
  by (simp add: get_model_status_eq)

theorem files_by_status_witness:
  "(fst (get_model_status cache_bare ''acme/Foo-7B'') = no_blobs
      \<and> snd (snd (get_model_status cache_bare ''acme/Foo-7B'')) = [])
   \<and> (fst (get_model_status cache_partial ''acme/Foo-7B'') = incomplete
      \<and> snd (snd (get_model_status cache_partial ''acme/Foo-7B''))
          = map (\<lambda>n. blobs_dir ''acme/Foo-7B'' @ [n])
              (filter has_marker (listdir cache_partial (blobs_dir ''acme/Foo-7B'')))
      \<and> snd (snd (get_model_status cache_partial ''acme/Foo-7B'')) \<noteq> [])
   \<and> (fst (get_model_status cache_done ''acme/Foo-7B'') = complete
      \<and> snd (snd (get_model_status cache_done ''acme/Foo-7B''))
          = map (\<lambda>n. blobs_dir ''acme/Foo-7B'' @ [n])
              (listdir cache_done (blobs_dir ''acme/Foo-7B'')))"
proof -
  have "listdir cache_done [''models--acme--Foo-7B'', ''blobs''] = [''def456'']"
    by (simp add: listdir_def cache_done_def node_at_def)
  then show ?thesis
    using files_by_status [of cache_bare "''acme/Foo-7B''"]
      files_by_status [of cache_partial "''acme/Foo-7B''"]
      files_by_status [of cache_done "''acme/Foo-7B''"]
    by (simp add: status_bare status_partial status_done acme_paths listdir_partial
        marker_partial)
qed

section \<open>Properties of \<open>discover_local_models\<close>\<close>

lemma discover_loop_eq:
  "discover_loop root ps acc
     = acc @ List.map_filter
               (\<lambda>p. if is_dir root p then decode_dir_name (path_name p) else None) ps"
  by (induction ps arbitrary: acc) (auto simp: map_filter_simps split: option.splits)

lemma map_filter_map: "List.map_filter f (map g xs) = List.map_filter (f \<circ> g) xs"
  by (induction xs) (auto simp: map_filter_simps split: option.splits)

lemma map_filter_filter:
  "List.map_filter (\<lambda>x. if P x then f x else None) xs = List.map_filter f (filter P xs)"
  by (induction xs) (auto simp: map_filter_simps split: option.splits)

lemma map_filter_append:
  "List.map_filter f (xs @ ys) = List.map_filter f xs @ List.map_filter f ys"
  by (simp add: List.map_filter_def)

lemma discover_eq:
  "discover_local_models root = sort (List.map_filter decode_dir_name (model_dir_names root))"
proof (cases "path_exists root []")
  case False
  then show ?thesis
    by (simp add: discover_local_models_def model_dir_names_def listdir_missing map_filter_simps)
next
  case True
  have "List.map_filter (\<lambda>p. if is_dir root p then decode_dir_name (path_name p) else None)
          (glob root [] (Then_star ''models--''))
        = List.map_filter decode_dir_name (model_dir_names root)"
    by (simp add: glob_listdir map_filter_map comp_def path_name_def model_dir_names_def
        startswith_prefix map_filter_filter [symmetric] cong: if_cong)
       (simp add: map_filter_filter)
  with True show ?thesis
    by (simp add: discover_local_models_def discover_loop_eq)
qed

lemma map_of_skip:
  "x \<noteq> n \<Longrightarrow> map_of (es1 @ (n, c) # es2) x = map_of (es1 @ es2) x"
  by (simp add: map_add_def split: option.splits)

lemma is_dir_skip:
  "x \<noteq> n \<Longrightarrow> is_dir (Some (Dir (es1 @ (n, c) # es2))) [x] = is_dir (Some (Dir (es1 @ es2))) [x]"
  by (simp add: is_dir_def node_at_def map_of_skip del: map_of_append)

lemma discover_skips:
  assumes "decode_dir_name n = None"
  shows "discover_local_models (Some (Dir (es1 @ (n, c) # es2)))
       = discover_local_models (Some (Dir (es1 @ es2)))"
proof -
  let ?R1 = "Some (Dir (es1 @ (n, c) # es2))" and ?R2 = "Some (Dir (es1 @ es2))"
  let ?f = "\<lambda>R x. if prefix ''models--'' x \<and> is_dir R [x] then decode_dir_name x else None"
  have same: "?f ?R1 x = ?f ?R2 x" for x
    using assms by (cases "x = n") (simp_all add: is_dir_skip)
  have "List.map_filter decode_dir_name (model_dir_names ?R1)
        = List.map_filter (?f ?R1) (map fst es1 @ n # map fst es2)"
    by (simp add: model_dir_names_def listdir_def node_at_def map_filter_filter)
  also have "\<dots> = List.map_filter (?f ?R1) (map fst es1 @ map fst es2)"
    using assms by (simp add: map_filter_append map_filter_simps)
  also have "\<dots> = List.map_filter (?f ?R2) (map fst es1 @ map fst es2)"
    by (simp only: same)
  also have "\<dots> = List.map_filter decode_dir_name (model_dir_names ?R2)"
    by (simp add: model_dir_names_def listdir_def node_at_def map_filter_filter)
  finally show ?thesis by (simp add: discover_eq)
qed

lemma discover_two: "discover_local_models cache_two = [''acme/Foo-7B'', ''zeta/Bar'']"
  by (simp add: discover_local_models_def cache_two_def path_exists_def node_at_def glob_def
      startswith_def is_dir_def path_name_def decode_dir_name_def)

lemma discover_mixed: "discover_local_models cache_mixed = [''acme/Foo-7B'', ''zeta/Bar'']"
  by (simp add: discover_local_models_def cache_mixed_def path_exists_def node_at_def glob_def
      startswith_def is_dir_def path_name_def decode_dir_name_def)

text \<open>
  C5, as stated: a subdirectory whose name fails to decode is reported as a per-entry
  error. The function returns the list of names and nothing else, and prints nothing;
  with the directories \<open>randomdir\<close> and \<open>models--broken\<close> in the cache it returns what it
  returns without them.
\<close>

theorem discover_reports_counterexample:
  "is_dir cache_mixed [''randomdir''] \<and> decode_dir_name ''randomdir'' = None
   \<and> is_dir cache_mixed [''models--broken''] \<and> decode_dir_name ''models--broken'' = None
   \<and> discover_local_models cache_mixed = [''acme/Foo-7B'', ''zeta/Bar'']
   \<and> discover_local_models cache_mixed = discover_local_models cache_two"
  by (simp add: discover_mixed discover_two)
     (simp add: cache_mixed_def is_dir_def node_at_def decode_dir_name_def startswith_def)

text \<open>
  C5, amended: for every cache root, \<open>discover_local_models\<close> returns exactly the
  identifiers decoded from the \<open>models--*\<close> directories, sorted lexicographically; a
  subdirectory whose name fails to decode does not abort the scan and is skipped
  silently: the result is the one for the cache without that entry.
\<close>

theorem discover_sorted_decoded:
  "discover_local_models root = sort (List.map_filter decode_dir_name (model_dir_names root))
   \<and> sorted (discover_local_models root)
   \<and> mset (discover_local_models root)
       = mset (List.map_filter decode_dir_name (model_dir_names root))
   \<and> (decode_dir_name n = None \<longrightarrow>
        discover_local_models (Some (Dir (es1 @ (n, c) # es2)))
          = discover_local_models (Some (Dir (es1 @ es2))))"
  by (simp add: discover_eq discover_skips [unfolded discover_eq])

theorem discover_sorted_decoded_witness:
  "decode_dir_name ''models--broken'' = None
   \<and> discover_local_models
        (Some (Dir ([(''models--zeta--Bar'', Dir [])]
                    @ (''models--broken'', Dir []) # [(''models--acme--Foo-7B'', Dir [])])))
     = discover_local_models cache_two
   \<and> model_dir_names cache_two = [''models--zeta--Bar'', ''models--acme--Foo-7B'']
   \<and> discover_local_models cache_two = [''acme/Foo-7B'', ''zeta/Bar'']
   \<and> sorted (discover_local_models cache_two)"
proof -
  have h: "decode_dir_name ''models--broken'' = None"
    by (simp add: decode_dir_name_def startswith_def)
  have n: "model_dir_names cache_two = [''models--zeta--Bar'', ''models--acme--Foo-7B'']"
    by (simp add: model_dir_names_def listdir_def cache_two_def node_at_def is_dir_def
        startswith_prefix [symmetric] startswith_def)
  have two: "Some (Dir ([(''models--zeta--Bar'', Dir [])] @ [(''models--acme--Foo-7B'', Dir [])]))
     = cache_two"
    by (simp add: cache_two_def)
  from discover_sorted_decoded [of cache_two "''models--broken''"
      "[(''models--zeta--Bar'', Dir [])]" "Dir []" "[(''models--acme--Foo-7B'', Dir [])]"]
    h n two
  show ?thesis by (simp add: discover_two)
qed

section \<open>Properties of \<open>clean_incomplete_model\<close>\<close>

lemma map_of_filter_ne: "map_of (filter (\<lambda>e. fst e \<noteq> k) es) x = (if x = k then None else map_of es x)"
  by (induction es) auto

lemma map_of_map_at:
  "map_of (map (\<lambda>e. if fst e = k then (fst e, delete_path (snd e) ks) else e) es) x
     = (if x = k then map_option (\<lambda>c. delete_path c ks) (map_of es k) else map_of es x)"
  by (induction es) auto

lemma lookup_File: "lookup_path File ks = (if ks = [] then Some File else None)"
  by (cases ks) simp_all

lemma lookup_delete_other:
  "lookup_path r p = Some File \<Longrightarrow> q \<noteq> p
   \<Longrightarrow> map_option is_file (lookup_path (delete_path r p) q) = map_option is_file (lookup_path r q)"
proof (induction r p arbitrary: q rule: delete_path.induct)
  case (1 n)
  then show ?case by simp
next
  case (2 k ks)
  then show ?case by simp
next
  case (3 es k)
  then show ?case
    by (cases q) (auto simp: map_of_filter_ne lookup_File split: option.splits)
next
  case (4 es k k' ks)
  then obtain c where c: "map_of es k = Some c" "lookup_path c (k' # ks) = Some File"
    by (auto split: option.splits)
  then have mem: "(k, c) \<in> set es" by (auto dest: map_of_SomeD)
  show ?case
  proof (cases q)
    case Nil
    then show ?thesis by simp
  next
    case (Cons k2 ks2)
    show ?thesis
    proof (cases "k2 = k")
      case True
      with Cons 4(3) have ne: "ks2 \<noteq> k' # ks" by simp
      from "4.IH" [of "(k, c)" ks2] mem c(2) ne True Cons c(1) show ?thesis
        by (simp add: map_of_map_at)
    next
      case False
      with Cons show ?thesis by (simp add: map_of_map_at)
    qed
  qed
qed

lemma lookup_delete_self:
  "lookup_path r p = Some File \<Longrightarrow> p \<noteq> [] \<Longrightarrow> lookup_path (delete_path r p) p = None"
proof (induction r p rule: delete_path.induct)
  case (4 es k k' ks)
  then obtain c where c: "map_of es k = Some c" "lookup_path c (k' # ks) = Some File"
    by (auto split: option.splits)
  then have mem: "(k, c) \<in> set es" by (auto dest: map_of_SomeD)
  from "4.IH" [of "(k, c)"] mem c show ?case by (simp add: map_of_map_at)
qed (auto simp: map_of_filter_ne)

lemma kind_remove_at:
  assumes "node_at root p = Some File"
  shows "kind_at (remove_at root p) q = (if q = p then None else kind_at root q)"
proof (cases "p = []")
  case True
  with assms have "root = Some File" by (simp add: node_at_def split: option.splits)
  with True show ?thesis
    by (simp add: kind_at_def remove_at_def node_at_def lookup_File)
next
  case False
  from assms obtain r where r: "root = Some r" "lookup_path r p = Some File"
    by (auto simp: node_at_def split: option.splits)
  with False show ?thesis
    using lookup_delete_self [of r p] lookup_delete_other [of r p q]
    by (simp add: kind_at_def remove_at_def node_at_def)
qed

lemma emit_simps [simp]:
  "cache (emit m s) = cache s" "env (emit m s) = env s" "trace (emit m s) = trace s @ [Print m]"
  by (simp_all add: emit_def)

lemma unlink_cases:
  "unlink X p s =
    (if node_at (cache s) p = Some File \<and> \<not> unlink_denied X p
     then (True, s\<lparr>cache := remove_at (cache s) p, trace := trace s @ [Call_unlink p True]\<rparr>)
     else (False, s\<lparr>trace := trace s @ [Call_unlink p False]\<rparr>))"
  by (simp add: unlink_def)

lemma clean_loop_trace:
  "\<exists>t. trace (clean_loop X fs s) = trace s @ t \<and> map unlink_target (calls t) = map Some fs"
proof (induction fs arbitrary: s)
  case Nil
  then show ?case by (simp add: calls_def)
next
  case (Cons f fs)
  show ?case
  proof (cases "node_at (cache s) f = Some File \<and> \<not> unlink_denied X f")
    case True
    let ?s1 = "emit (Removed (path_name f))
                 (s\<lparr>cache := remove_at (cache s) f, trace := trace s @ [Call_unlink f True]\<rparr>)"
    from Cons.IH [of ?s1] obtain t where t: "trace (clean_loop X fs ?s1) = trace ?s1 @ t"
      "map unlink_target (calls t) = map Some fs"
      by blast
    have "clean_loop X (f # fs) s = clean_loop X fs ?s1"
      using True by (simp add: unlink_cases)
    with t show ?thesis
      by (intro exI [of _ "[Call_unlink f True, Print (Removed (path_name f))] @ t"])
         (simp add: calls_def)
  next
    case False
    let ?s1 = "emit (Failed_to_remove (path_name f))
                 (s\<lparr>trace := trace s @ [Call_unlink f False]\<rparr>)"
    from Cons.IH [of ?s1] obtain t where t: "trace (clean_loop X fs ?s1) = trace ?s1 @ t"
      "map unlink_target (calls t) = map Some fs"
      by blast
    have "clean_loop X (f # fs) s = clean_loop X fs ?s1"
      using False by (auto simp: unlink_cases)
    with t show ?thesis
      by (intro exI [of _ "[Call_unlink f False, Print (Failed_to_remove (path_name f))] @ t"])
         (simp add: calls_def)
  qed
qed

lemma clean_loop_env: "env (clean_loop X fs s) = env s"
  by (induction fs arbitrary: s) (auto simp: unlink_cases)

lemma clean_loop_kind:
  "kind_at (cache (clean_loop X fs s)) q
     = (if q \<in> set fs \<and> node_at (cache s) q = Some File \<and> \<not> unlink_denied X q then None
        else kind_at (cache s) q)"
proof (induction fs arbitrary: s)
  case Nil
  then show ?case by simp
next
  case (Cons f fs)
  have file_kind: "node_at c q = Some File \<longleftrightarrow> kind_at c q = Some True" for c q
    by (cases "node_at c q") (auto simp: kind_at_def elim: is_file.elims)
  show ?case
  proof (cases "node_at (cache s) f = Some File \<and> \<not> unlink_denied X f")
    case True
    then show ?thesis
      using Cons.IH kind_remove_at [of "cache s" f]
      by (auto simp: unlink_cases file_kind)
  next
    case False
    then show ?thesis
      using Cons.IH by (auto simp: unlink_cases file_kind)
  qed
qed


lemma new_events_append: "trace s' = trace s @ t \<Longrightarrow> new_events s s' = t"
  by (simp add: new_events_def)

lemma status_partial2: "get_model_status cache_partial2 ''acme/Foo-7B''
  = (incomplete, Some [''models--acme--Foo-7B''],
     [[''models--acme--Foo-7B'', ''blobs'', ''abc123.incomplete''],
      [''models--acme--Foo-7B'', ''blobs'', ''xyz789.incomplete'']])"
  by (simp add: get_model_status_eq acme_paths listdir_def cache_partial2_def path_exists_def
      node_at_def has_marker_code endswith_def)

lemma clean_partial2:
  "clean_incomplete_model X_ok ''acme/Foo-7B'' (fresh cache_partial2)
   = (True,
      \<lparr>cache = Some (Dir [(''models--acme--Foo-7B'', Dir [(''blobs'', Dir [(''def456'', File)])])]),
       env = (),
       trace = [Print (Cleaning 2 ''acme/Foo-7B''),
                Call_unlink [''models--acme--Foo-7B'', ''blobs'', ''abc123.incomplete''] True,
                Print (Removed ''abc123.incomplete''),
                Call_unlink [''models--acme--Foo-7B'', ''blobs'', ''xyz789.incomplete''] True,
                Print (Removed ''xyz789.incomplete'')]\<rparr>)"
  by (simp add: clean_incomplete_model_def fresh_def status_partial2)
     (simp add: cache_partial2_def node_at_def unlink_def X_ok_def remove_at_def emit_def
      path_name_def)

text \<open>
  C2, as stated: when the status is \<open>incomplete\<close> the function returns the count of files
  actually removed. It returns \<open>True\<close>: with two partial blobs, both deleted, the value
  returned is \<open>True\<close>, which as a Python integer is 1, not 2.
\<close>

theorem clean_count_counterexample:
  "fst (get_model_status cache_partial2 ''acme/Foo-7B'') = incomplete
   \<and> length (listdir cache_partial2 [''models--acme--Foo-7B'', ''blobs'']) = 3
   \<and> length (listdir (cache (snd (clean_incomplete_model X_ok ''acme/Foo-7B''
                                     (fresh cache_partial2))))
               [''models--acme--Foo-7B'', ''blobs'']) = 1
   \<and> fst (clean_incomplete_model X_ok ''acme/Foo-7B'' (fresh cache_partial2)) = True
   \<and> (of_bool (fst (clean_incomplete_model X_ok ''acme/Foo-7B'' (fresh cache_partial2))) :: nat)
       \<noteq> 2"
  by (simp add: clean_partial2 status_partial2)
     (simp add: listdir_def node_at_def cache_partial2_def)

text \<open>
  C2, amended: \<open>clean_incomplete_model\<close> inspects the model again. If the status is not
  \<open>incomplete\<close> it returns \<open>False\<close>, leaves the cache as it is and calls no library
  function. If the status is \<open>incomplete\<close> it calls \<open>unlink\<close> once on every file of the
  incomplete files, in order and whether or not earlier calls failed; afterwards exactly
  the incomplete files that were regular files and that the operating system let go are
  gone, everything else being what it was; and it returns \<open>True\<close>, however many files
  were removed.
\<close>

theorem clean_incomplete_model_flag:
  "(fst (get_model_status (cache s) m) \<noteq> incomplete \<longrightarrow>
      \<not> fst (clean_incomplete_model X m s)
      \<and> cache (snd (clean_incomplete_model X m s)) = cache s
      \<and> calls (new_events s (snd (clean_incomplete_model X m s))) = [])
   \<and> (fst (get_model_status (cache s) m) = incomplete \<longrightarrow>
      fst (clean_incomplete_model X m s)
      \<and> map unlink_target (calls (new_events s (snd (clean_incomplete_model X m s))))
          = map Some (snd (snd (get_model_status (cache s) m)))
      \<and> (\<forall>q. kind_at (cache (snd (clean_incomplete_model X m s))) q
            = (if q \<in> set (snd (snd (get_model_status (cache s) m)))
                  \<and> node_at (cache s) q = Some File \<and> \<not> unlink_denied X q
               then None else kind_at (cache s) q)))"
proof (cases "get_model_status (cache s) m")
  case (fields st mp files)
  show ?thesis
  proof (cases "st = incomplete")
    case False
    with fields show ?thesis
      by (simp add: clean_incomplete_model_def new_events_def calls_def)
  next
    case True
    let ?s0 = "emit (Cleaning (length files) m) s"
    from clean_loop_trace [of X files ?s0] obtain t
      where t: "trace (clean_loop X files ?s0) = trace ?s0 @ t"
        "map unlink_target (calls t) = map Some files"
      by blast
    then have "new_events s (clean_loop X files ?s0) = Print (Cleaning (length files) m) # t"
      by (simp add: new_events_def)
    with t(2) True fields show ?thesis
      by (simp add: clean_incomplete_model_def clean_loop_kind calls_def)
  qed
qed

theorem clean_incomplete_model_flag_witness:
  "(fst (get_model_status (cache (fresh cache_done)) ''acme/Foo-7B'') \<noteq> incomplete
      \<and> \<not> fst (clean_incomplete_model X_ok ''acme/Foo-7B'' (fresh cache_done))
      \<and> cache (snd (clean_incomplete_model X_ok ''acme/Foo-7B'' (fresh cache_done)))
          = cache_done)
   \<and> (fst (get_model_status (cache (fresh cache_partial2)) ''acme/Foo-7B'') = incomplete
      \<and> unlink_denied X_deny_abc [''models--acme--Foo-7B'', ''blobs'', ''abc123.incomplete'']
      \<and> fst (clean_incomplete_model X_deny_abc ''acme/Foo-7B'' (fresh cache_partial2))
      \<and> map unlink_target (calls (new_events (fresh cache_partial2)
            (snd (clean_incomplete_model X_deny_abc ''acme/Foo-7B'' (fresh cache_partial2)))))
          = [Some [''models--acme--Foo-7B'', ''blobs'', ''abc123.incomplete''],
             Some [''models--acme--Foo-7B'', ''blobs'', ''xyz789.incomplete'']]
      \<and> kind_at (cache (snd (clean_incomplete_model X_deny_abc ''acme/Foo-7B''
                                 (fresh cache_partial2))))
            [''models--acme--Foo-7B'', ''blobs'', ''abc123.incomplete''] = Some True
      \<and> kind_at (cache (snd (clean_incomplete_model X_deny_abc ''acme/Foo-7B''
                                 (fresh cache_partial2))))
            [''models--acme--Foo-7B'', ''blobs'', ''xyz789.incomplete''] = None)"
proof -
  have c: "cache (fresh cache_done) = cache_done" "cache (fresh cache_partial2) = cache_partial2"
    by (simp_all add: fresh_def)
  have d: "unlink_denied X_deny_abc [''models--acme--Foo-7B'', ''blobs'', ''abc123.incomplete'']"
    "\<not> unlink_denied X_deny_abc [''models--acme--Foo-7B'', ''blobs'', ''xyz789.incomplete'']"
    by (simp_all add: X_deny_abc_def X_ok_def)
  have k: "node_at cache_partial2 [''models--acme--Foo-7B'', ''blobs'', ''xyz789.incomplete'']
             = Some File"
    "kind_at cache_partial2 [''models--acme--Foo-7B'', ''blobs'', ''abc123.incomplete'']
             = Some True"
    by (simp_all add: kind_at_def node_at_def cache_partial2_def)
  from clean_incomplete_model_flag [of "fresh cache_done" "''acme/Foo-7B''" X_ok]
  have 1: "\<not> fst (clean_incomplete_model X_ok ''acme/Foo-7B'' (fresh cache_done))
      \<and> cache (snd (clean_incomplete_model X_ok ''acme/Foo-7B'' (fresh cache_done))) = cache_done"
    by (simp add: c status_done)
  note T = clean_incomplete_model_flag [of "fresh cache_partial2" "''acme/Foo-7B''" X_deny_abc,
      unfolded c status_partial2 fst_conv snd_conv]
  from T have r: "fst (clean_incomplete_model X_deny_abc ''acme/Foo-7B'' (fresh cache_partial2))"
    by blast
  from T have u: "map unlink_target (calls (new_events (fresh cache_partial2)
            (snd (clean_incomplete_model X_deny_abc ''acme/Foo-7B'' (fresh cache_partial2)))))
          = map Some [[''models--acme--Foo-7B'', ''blobs'', ''abc123.incomplete''],
                      [''models--acme--Foo-7B'', ''blobs'', ''xyz789.incomplete'']]"
    by blast
  from T have q: "kind_at (cache (snd (clean_incomplete_model X_deny_abc ''acme/Foo-7B''
                                  (fresh cache_partial2)))) q
      = (if q \<in> set [[''models--acme--Foo-7B'', ''blobs'', ''abc123.incomplete''],
                     [''models--acme--Foo-7B'', ''blobs'', ''xyz789.incomplete'']]
            \<and> node_at cache_partial2 q = Some File \<and> \<not> unlink_denied X_deny_abc q
         then None else kind_at cache_partial2 q)" for q
    by blast
  have "kind_at (cache (snd (clean_incomplete_model X_deny_abc ''acme/Foo-7B''
                                 (fresh cache_partial2))))
            [''models--acme--Foo-7B'', ''blobs'', ''abc123.incomplete''] = Some True"
    by (simp add: q d k)
  moreover have "kind_at (cache (snd (clean_incomplete_model X_deny_abc ''acme/Foo-7B''
                                 (fresh cache_partial2))))
            [''models--acme--Foo-7B'', ''blobs'', ''xyz789.incomplete''] = None"
    by (simp add: q d k)
  ultimately show ?thesis
    using 1 r u d by (simp add: c status_done status_partial2)
qed

section \<open>Properties of \<open>remove_model\<close>\<close>

lemma node_at_remove_top:
  "node_at (remove_at root [k]) (k' # ks) = (if k' = k then None else node_at root (k' # ks))"
proof (cases root)
  case None
  then show ?thesis by (simp add: remove_at_def node_at_def)
next
  case (Some r)
  then show ?thesis
    by (cases r) (simp_all add: remove_at_def node_at_def map_of_filter_ne)
qed

lemma rmtree_cases:
  "rmtree X (Some p) s =
     (case node_at (cache s) p of
        Some (Dir es) \<Rightarrow>
          (case rmtree_fault X p (Dir es) of
             None \<Rightarrow> (True, s\<lparr>cache := remove_at (cache s) p,
                              trace := trace s @ [Call_rmtree (Some p) True]\<rparr>)
           | Some residue \<Rightarrow>
               (False, s\<lparr>cache := map_option (\<lambda>r. replace_path r p residue) (cache s),
                         trace := trace s @ [Call_rmtree (Some p) False]\<rparr>))
      | _ \<Rightarrow> (False, s\<lparr>trace := trace s @ [Call_rmtree (Some p) False]\<rparr>))"
  by (simp add: rmtree_def Let_def split: option.splits node.splits)

lemma status_model_path:
  "fst (get_model_status root m) \<noteq> not_downloaded
   \<Longrightarrow> fst (snd (get_model_status root m)) = Some (root_path m)"
  "fst (get_model_status root m) = not_downloaded \<longleftrightarrow> \<not> path_exists root (root_path m)"
  by (auto simp: get_model_status_eq split: if_splits)

lemma status_missing: "get_model_status cache_done ''acme/Missing'' = (not_downloaded, None, [])"
  by (simp add: get_model_status_eq root_path_def model_dir_name_def replace_slash_def
      path_exists_def node_at_def cache_done_def)

text \<open>
  C8. \<open>remove_model\<close> inspects the model again. If the status is \<open>not_downloaded\<close> it
  returns \<open>False\<close>, calls no library function and leaves the cache as it is. For any other
  status it calls \<open>rmtree\<close> once on the model root; when that succeeds it returns \<open>True\<close>
  and the model root with everything below it is gone, every other entry of the cache
  being what it was; when that fails it returns \<open>False\<close> after printing the failure.
\<close>

theorem remove_model_outcome:
  "(fst (get_model_status (cache s) m) = not_downloaded \<longrightarrow>
      \<not> fst (remove_model X m s)
      \<and> cache (snd (remove_model X m s)) = cache s
      \<and> calls (new_events s (snd (remove_model X m s))) = [])
   \<and> (fst (get_model_status (cache s) m) \<noteq> not_downloaded \<longrightarrow>
      fst (remove_model X m s) = rmtree_succeeds X (cache s) (root_path m)
      \<and> calls (new_events s (snd (remove_model X m s)))
          = [Call_rmtree (Some (root_path m)) (fst (remove_model X m s))]
      \<and> (fst (remove_model X m s) \<longrightarrow>
            (\<forall>k ks. node_at (cache (snd (remove_model X m s))) (k # ks)
               = (if k = model_dir_name m then None else node_at (cache s) (k # ks))))
      \<and> (\<not> fst (remove_model X m s) \<longrightarrow>
            last (new_events s (snd (remove_model X m s))) = Print (Failed_to_remove m)))"
proof (cases "get_model_status (cache s) m")
  case (fields st mp files)
  show ?thesis
  proof (cases "st = not_downloaded")
    case True
    with fields show ?thesis
      by (simp add: remove_model_def new_events_def calls_def)
  next
    case False
    with fields status_model_path(1) [of "cache s" m] have mp: "mp = Some (root_path m)"
      by simp
    show ?thesis
      using fields False mp
      by (auto simp: remove_model_def rmtree_cases rmtree_succeeds_def new_events_def calls_def
          root_path_def node_at_remove_top split: option.splits node.splits)
  qed
qed

theorem remove_model_outcome_witness:
  "(fst (get_model_status (cache (fresh cache_done)) ''acme/Missing'') = not_downloaded
      \<and> \<not> fst (remove_model X_ok ''acme/Missing'' (fresh cache_done))
      \<and> cache (snd (remove_model X_ok ''acme/Missing'' (fresh cache_done))) = cache_done)
   \<and> (fst (get_model_status (cache (fresh cache_done)) ''acme/Foo-7B'') \<noteq> not_downloaded
      \<and> rmtree_succeeds X_ok cache_done (root_path ''acme/Foo-7B'')
      \<and> fst (remove_model X_ok ''acme/Foo-7B'' (fresh cache_done))
      \<and> node_at (cache (snd (remove_model X_ok ''acme/Foo-7B'' (fresh cache_done))))
           [''models--acme--Foo-7B'', ''blobs'', ''def456''] = None)
   \<and> (\<not> rmtree_succeeds X_rm_fault cache_done (root_path ''acme/Foo-7B'')
      \<and> \<not> fst (remove_model X_rm_fault ''acme/Foo-7B'' (fresh cache_done))
      \<and> last (new_events (fresh cache_done)
                (snd (remove_model X_rm_fault ''acme/Foo-7B'' (fresh cache_done))))
          = Print (Failed_to_remove ''acme/Foo-7B''))"
proof -
  have c: "cache (fresh cache_done) = cache_done"
    by (simp add: fresh_def)
  have ok: "rmtree_succeeds X_ok cache_done (root_path ''acme/Foo-7B'')"
    by (simp add: rmtree_succeeds_def acme_paths node_at_def cache_done_def X_ok_def)
  have bad: "\<not> rmtree_succeeds X_rm_fault cache_done (root_path ''acme/Foo-7B'')"
    by (simp add: rmtree_succeeds_def acme_paths node_at_def cache_done_def X_rm_fault_def
        X_ok_def)
  have n: "model_dir_name ''acme/Foo-7B'' = ''models--acme--Foo-7B''"
    by (simp add: model_dir_name_def replace_slash_def)
  note T1 = remove_model_outcome [of "fresh cache_done" "''acme/Missing''" X_ok,
      unfolded c status_missing fst_conv snd_conv]
  note T2 = remove_model_outcome [of "fresh cache_done" "''acme/Foo-7B''" X_ok,
      unfolded c status_done fst_conv snd_conv]
  note T3 = remove_model_outcome [of "fresh cache_done" "''acme/Foo-7B''" X_rm_fault,
      unfolded c status_done fst_conv snd_conv]
  from T1 have 1: "\<not> fst (remove_model X_ok ''acme/Missing'' (fresh cache_done))
      \<and> cache (snd (remove_model X_ok ''acme/Missing'' (fresh cache_done))) = cache_done"
    by simp
  from T2 ok have 2: "fst (remove_model X_ok ''acme/Foo-7B'' (fresh cache_done))"
    by simp
  with T2 have "\<forall>k ks. node_at (cache (snd (remove_model X_ok ''acme/Foo-7B'' (fresh cache_done))))
                   (k # ks)
            = (if k = model_dir_name ''acme/Foo-7B'' then None else node_at cache_done (k # ks))"
    by simp
  then have 3: "node_at (cache (snd (remove_model X_ok ''acme/Foo-7B'' (fresh cache_done))))
           [''models--acme--Foo-7B'', ''blobs'', ''def456''] = None"
    by (simp add: n)
  from T3 bad have 4: "\<not> fst (remove_model X_rm_fault ''acme/Foo-7B'' (fresh cache_done))"
    by simp
  with T3 have 5: "last (new_events (fresh cache_done)
                (snd (remove_model X_rm_fault ''acme/Foo-7B'' (fresh cache_done))))
          = Print (Failed_to_remove ''acme/Foo-7B'')"
    by simp
  show ?thesis
    using 1 2 3 4 5 ok bad by (simp add: c status_missing status_done)
qed

section \<open>Properties of \<open>download_model\<close>\<close>

lemma call_load_eq:
  "call_load X m s =
     (fst (load X m (cache s) (env s)),
      s\<lparr>cache := fst (snd (load X m (cache s) (env s))),
        env := snd (snd (load X m (cache s) (env s))),
        trace := trace s @ [Call_load m (fst (load X m (cache s) (env s)))]\<rparr>)"
  by (simp add: call_load_def split: prod.splits)

lemma call_snapshot_download_eq:
  "call_snapshot_download X m f s =
     (fst (snapshot_download X m f (cache s) (env s)),
      s\<lparr>cache := fst (snd (snapshot_download X m f (cache s) (env s))),
        env := snd (snd (snapshot_download X m f (cache s) (env s))),
        trace := trace s @ [Call_snapshot_download m f
                              (fst (snapshot_download X m f (cache s) (env s)) \<noteq> None)]\<rparr>)"
  by (simp add: call_snapshot_download_def split: prod.splits)

lemma fetch_and_verify_shape:
  "\<exists>t. trace (snd (fetch_and_verify X m v f s)) = trace s @ t
       \<and> download_outcome m v f (fst (fetch_and_verify X m v f s)) (calls t)"
proof (cases "fst (snapshot_download X m f (cache s) (env s))")
  case None
  then show ?thesis
    by (simp add: fetch_and_verify_def Let_def call_snapshot_download_eq download_outcome_def
        calls_def)
next
  case (Some local_path)
  show ?thesis
  proof (cases v)
    case False
    with Some show ?thesis
      by (simp add: fetch_and_verify_def Let_def call_snapshot_download_eq download_outcome_def
          calls_def)
  next
    case True
    with Some show ?thesis
      by (simp add: fetch_and_verify_def Let_def call_snapshot_download_eq call_load_eq
          download_outcome_def calls_def split: bool.splits)
  qed
qed


lemma clean_incomplete_trace:
  assumes "fst (get_model_status (cache s) m) = incomplete"
  shows "\<exists>t. trace (snd (clean_incomplete_model X m s)) = trace s @ t
           \<and> map unlink_target (calls t) = map Some (snd (snd (get_model_status (cache s) m)))"
proof (cases "get_model_status (cache s) m")
  case (fields st mp files)
  let ?s0 = "emit (Cleaning (length files) m) s"
  from clean_loop_trace [of X files ?s0] obtain t
    where t: "trace (clean_loop X files ?s0) = trace ?s0 @ t"
      "map unlink_target (calls t) = map Some files"
    by blast
  with fields assms show ?thesis
    by (intro exI [of _ "Print (Cleaning (length files) m) # t"])
       (simp add: clean_incomplete_model_def calls_def)
qed

lemma clean_then_fetch_shape:
  assumes "st = incomplete \<longrightarrow> fst (get_model_status (cache s) m) = incomplete"
  shows "\<exists>t pre fc. trace (snd (clean_then_fetch X m v f st files s)) = trace s @ t
           \<and> calls t = pre @ fc
           \<and> download_outcome m v f (fst (clean_then_fetch X m v f st files s)) fc
           \<and> (st = incomplete \<longrightarrow>
                 map unlink_target pre = map Some (snd (snd (get_model_status (cache s) m))))
           \<and> (st \<noteq> incomplete \<longrightarrow> pre = [])"
proof (cases "st = incomplete")
  case False
  from fetch_and_verify_shape [of X m v f s] obtain t
    where "trace (snd (fetch_and_verify X m v f s)) = trace s @ t"
      "download_outcome m v f (fst (fetch_and_verify X m v f s)) (calls t)"
    by blast
  with False show ?thesis
    by (intro exI [of _ t] exI [of _ "[]"] exI [of _ "calls t"])
       (simp add: clean_then_fetch_def)
next
  case True
  let ?s0 = "emit (Found_incomplete (length files)) s"
  let ?s1 = "snd (clean_incomplete_model X m ?s0)"
  from True assms have "fst (get_model_status (cache ?s0) m) = incomplete" by simp
  from clean_incomplete_trace [OF this, of X] obtain t1
    where t1: "trace ?s1 = trace ?s0 @ t1"
      "map unlink_target (calls t1) = map Some (snd (snd (get_model_status (cache s) m)))"
    by auto
  from fetch_and_verify_shape [of X m v f ?s1] obtain t2
    where t2: "trace (snd (fetch_and_verify X m v f ?s1)) = trace ?s1 @ t2"
      "download_outcome m v f (fst (fetch_and_verify X m v f ?s1)) (calls t2)"
    by blast
  from True t1 t2 show ?thesis
    by (intro exI [of _ "Print (Found_incomplete (length files)) # t1 @ t2"]
        exI [of _ "calls t1"] exI [of _ "calls t2"])
       (simp add: clean_then_fetch_def calls_def)
qed


lemma unlink_calls_only:
  assumes "map unlink_target pre = map Some fs" "e \<in> set pre"
  shows "e \<noteq> Call_snapshot_download m f d"
proof
  assume "e = Call_snapshot_download m f d"
  with assms(2) have "None \<in> set (map unlink_target pre)" by force
  with assms(1) show False by auto
qed

lemma failed_verify_redownloads:
  assumes "fst (get_model_status (cache s) m) = complete" "\<not> f" "v"
    and "\<not> fst (load X m (cache s) (env s))"
  shows "\<exists>t fc. trace (snd (download_model X m v f s)) = trace s @ t
           \<and> calls t = Call_load m False # fc
           \<and> download_outcome m v f (fst (download_model X m v f s)) fc"
proof (cases "get_model_status (cache s) m")
  case (fields st mp files)
  with assms(1) have st: "st = complete" by simp
  let ?s1 = "emit Verifying (emit (Already_complete m) s)"
  let ?s3 = "emit Redownloading (emit Verification_failed (snd (call_load X m ?s1)))"
  have "st = incomplete \<longrightarrow> fst (get_model_status (cache ?s3) m) = incomplete"
    using st by simp
  from clean_then_fetch_shape [OF this, of X v f files] obtain t pre fc
    where t: "trace (snd (clean_then_fetch X m v f st files ?s3)) = trace ?s3 @ t"
      "calls t = pre @ fc"
      "download_outcome m v f (fst (clean_then_fetch X m v f st files ?s3)) fc"
      "st \<noteq> incomplete \<longrightarrow> pre = []"
    by blast
  have dm: "download_model X m v f s = clean_then_fetch X m v f st files ?s3"
    using fields st assms(2-4) by (simp add: download_model_def call_load_eq)
  have tr: "trace ?s3 = trace s @ [Print (Already_complete m), Print Verifying,
              Call_load m False, Print Verification_failed, Print Redownloading]"
    using assms(4) by (simp add: call_load_eq)
  let ?t = "[Print (Already_complete m), Print Verifying, Call_load m False,
             Print Verification_failed, Print Redownloading] @ t"
  from t st have "pre = []" by simp
  with t(2) have c: "calls ?t = Call_load m False # fc"
    by (simp add: calls_def)
  have "trace (snd (download_model X m v f s)) = trace s @ ?t"
    using t(1) tr by (simp add: dm)
  with c t(3) show ?thesis unfolding dm by blast
qed

lemma download_model_shape:
  "\<exists>t. trace (snd (download_model X m v f s)) = trace s @ t
     \<and> (((calls t = [] \<or> calls t = [Call_load m True]) \<and> fst (download_model X m v f s))
        \<or> (\<exists>pre fc. calls t = pre @ fc
              \<and> download_outcome m v f (fst (download_model X m v f s)) fc
              \<and> (\<forall>e \<in> set pre. \<forall>d. e \<noteq> Call_snapshot_download m f d)))"
proof (cases "get_model_status (cache s) m")
  case (fields st mp files)
  show ?thesis
  proof (cases "st = complete \<and> \<not> f")
    case False
    have "st = incomplete \<longrightarrow> fst (get_model_status (cache s) m) = incomplete"
      using fields by simp
    from clean_then_fetch_shape [OF this, of X v f files] obtain t pre fc
      where t: "trace (snd (clean_then_fetch X m v f st files s)) = trace s @ t"
        "calls t = pre @ fc"
        "download_outcome m v f (fst (clean_then_fetch X m v f st files s)) fc"
        "st = incomplete \<longrightarrow>
           map unlink_target pre = map Some (snd (snd (get_model_status (cache s) m)))"
        "st \<noteq> incomplete \<longrightarrow> pre = []"
      by blast
    have "\<forall>e \<in> set pre. \<forall>d. e \<noteq> Call_snapshot_download m f d"
      using t(4,5) unlink_calls_only [of pre] by (cases "st = incomplete") auto
    moreover have "download_model X m v f s = clean_then_fetch X m v f st files s"
      using fields False by (auto simp: download_model_def)
    ultimately show ?thesis using t(1-3) by auto
  next
    case True
    show ?thesis
    proof (cases v)
      case False
      with True fields show ?thesis
        by (simp add: download_model_def calls_def)
    next
      case v: True
      show ?thesis
      proof (cases "fst (load X m (cache s) (env s))")
        case True
        with \<open>st = complete \<and> \<not> f\<close> v fields show ?thesis
          by (simp add: download_model_def call_load_eq calls_def)
      next
        case False
        from failed_verify_redownloads [of s m f v X] fields \<open>st = complete \<and> \<not> f\<close> v False
        obtain t fc where t: "trace (snd (download_model X m v f s)) = trace s @ t"
          "calls t = Call_load m False # fc"
          "download_outcome m v f (fst (download_model X m v f s)) fc"
          by auto
        have "\<exists>pre fc. calls t = pre @ fc
              \<and> download_outcome m v f (fst (download_model X m v f s)) fc
              \<and> (\<forall>e \<in> set pre. \<forall>d. e \<noteq> Call_snapshot_download m f d)"
          using t(2,3) by (intro exI [of _ "[Call_load m False]"] exI [of _ fc]) simp
        with t(1) show ?thesis by blast
      qed
    qed
  qed
qed

lemmas run_defs = download_model_def clean_then_fetch_def clean_incomplete_model_def
  fetch_and_verify_def call_load_def call_snapshot_download_def unlink_def emit_def
  remove_at_def path_name_def fresh_def Let_def

lemma fresh_simps: "cache (fresh c) = c" "env (fresh c) = ()" "trace (fresh c) = []"
  by (simp_all add: fresh_def)

lemma clean_found_partial2:
  assumes "unlink_denied X = (\<lambda>p. False)"
  shows "clean_incomplete_model X ''acme/Foo-7B'' (emit (Found_incomplete n) (fresh cache_partial2))
   = (True,
      \<lparr>cache = Some (Dir [(''models--acme--Foo-7B'', Dir [(''blobs'', Dir [(''def456'', File)])])]),
       env = (),
       trace = [Print (Found_incomplete n), Print (Cleaning 2 ''acme/Foo-7B''),
                Call_unlink [''models--acme--Foo-7B'', ''blobs'', ''abc123.incomplete''] True,
                Print (Removed ''abc123.incomplete''),
                Call_unlink [''models--acme--Foo-7B'', ''blobs'', ''xyz789.incomplete''] True,
                Print (Removed ''xyz789.incomplete'')]\<rparr>)"
  by (simp add: clean_incomplete_model_def fresh_simps status_partial2)
     (simp add: cache_partial2_def node_at_def unlink_def assms remove_at_def emit_def
      path_name_def fresh_def)

lemma download_partial2:
  assumes "unlink_denied X = (\<lambda>p. False)"
  shows "download_model X ''acme/Foo-7B'' v f (fresh cache_partial2)
   = fetch_and_verify X ''acme/Foo-7B'' v f
      \<lparr>cache = Some (Dir [(''models--acme--Foo-7B'', Dir [(''blobs'', Dir [(''def456'', File)])])]),
       env = (),
       trace = [Print (Found_incomplete 2), Print (Cleaning 2 ''acme/Foo-7B''),
                Call_unlink [''models--acme--Foo-7B'', ''blobs'', ''abc123.incomplete''] True,
                Print (Removed ''abc123.incomplete''),
                Call_unlink [''models--acme--Foo-7B'', ''blobs'', ''xyz789.incomplete''] True,
                Print (Removed ''xyz789.incomplete'')]\<rparr>"
  by (simp add: download_model_def clean_then_fetch_def fresh_simps status_partial2
      clean_found_partial2 [OF assms] numeral_2_eq_2)

lemma run_offline:
  "download_model X_offline ''acme/Foo-7B'' True False (fresh cache_partial2)
   = (False,
      \<lparr>cache = Some (Dir [(''models--acme--Foo-7B'', Dir [(''blobs'', Dir [(''def456'', File)])])]),
       env = (),
       trace = [Print (Found_incomplete 2), Print (Cleaning 2 ''acme/Foo-7B''),
                Call_unlink [''models--acme--Foo-7B'', ''blobs'', ''abc123.incomplete''] True,
                Print (Removed ''abc123.incomplete''),
                Call_unlink [''models--acme--Foo-7B'', ''blobs'', ''xyz789.incomplete''] True,
                Print (Removed ''xyz789.incomplete''),
                Print (Downloading ''acme/Foo-7B''),
                Call_snapshot_download ''acme/Foo-7B'' False False,
                Print Download_failed]\<rparr>)"
proof -
  have "unlink_denied X_offline = (\<lambda>p. False)" by (simp add: X_offline_def X_ok_def)
  then show ?thesis
    by (simp add: download_partial2 fetch_and_verify_def call_snapshot_download_def emit_def
        X_offline_def X_ok_def)
qed

lemma run_bad_load:
  "download_model X_bad_load ''acme/Foo-7B'' True False (fresh cache_partial2)
   = (False,
      \<lparr>cache = Some (Dir [(''models--acme--Foo-7B'', Dir [(''blobs'', Dir [(''def456'', File)])])]),
       env = (),
       trace = [Print (Found_incomplete 2), Print (Cleaning 2 ''acme/Foo-7B''),
                Call_unlink [''models--acme--Foo-7B'', ''blobs'', ''abc123.incomplete''] True,
                Print (Removed ''abc123.incomplete''),
                Call_unlink [''models--acme--Foo-7B'', ''blobs'', ''xyz789.incomplete''] True,
                Print (Removed ''xyz789.incomplete''),
                Print (Downloading ''acme/Foo-7B''),
                Call_snapshot_download ''acme/Foo-7B'' False True,
                Print (Downloaded_to ''snapshots/main''),
                Print (May_be_incomplete unknown), Print Verifying,
                Call_load ''acme/Foo-7B'' False, Print Verification_failed]\<rparr>)"
proof -
  have "unlink_denied X_bad_load = (\<lambda>p. False)" by (simp add: X_bad_load_def X_ok_def)
  moreover have "get_model_status
      (Some (Dir [(''models--acme--Foo-7B'', Dir [(''blobs'', Dir [(''def456'', File)])])]))
      ''acme/Foo-7B''
     = (unknown, Some [''models--acme--Foo-7B''], [[''models--acme--Foo-7B'', ''blobs'', ''def456'']])"
    by (simp add: get_model_status_eq acme_paths listdir_def path_exists_def node_at_def
        has_marker_code endswith_def)
  ultimately show ?thesis
    by (simp add: download_partial2 fetch_and_verify_def call_snapshot_download_def
        call_load_def emit_def X_bad_load_def X_ok_def)
qed

lemma run_heal:
  "download_model X_heal ''acme/Foo-7B'' True False (unrepaired cache_done)
   = (True,
      \<lparr>cache = cache_done, env = True,
       trace = [Print (Already_complete ''acme/Foo-7B''), Print Verifying,
                Call_load ''acme/Foo-7B'' False, Print Verification_failed,
                Print Redownloading, Print (Downloading ''acme/Foo-7B''),
                Call_snapshot_download ''acme/Foo-7B'' False True,
                Print (Downloaded_to ''snapshots/main''), Print Verifying,
                Call_load ''acme/Foo-7B'' True, Print (Verified ''acme/Foo-7B'')]\<rparr>)"
  by (simp add: run_defs unrepaired_def status_done X_heal_def)

lemma run_cached_verified:
  "download_model X_ok ''acme/Foo-7B'' True False (fresh cache_done)
   = (True,
      \<lparr>cache = cache_done, env = (),
       trace = [Print (Already_complete ''acme/Foo-7B''), Print Verifying,
                Call_load ''acme/Foo-7B'' True, Print (Verified ''acme/Foo-7B'')]\<rparr>)"
  by (simp add: run_defs status_done X_ok_def)

lemma run_cached:
  "download_model X_ok ''acme/Foo-7B'' False False (fresh cache_done)
   = (True, \<lparr>cache = cache_done, env = (), trace = [Print (Already_complete ''acme/Foo-7B'')]\<rparr>)"
  by (simp add: run_defs status_done)


text \<open>
  C6. When the status is \<open>complete\<close> and no re-download is forced: without \<open>verify\<close>,
  \<open>download_model\<close> returns \<open>True\<close> at once, calling neither \<open>load\<close> nor
  \<open>snapshot_download\<close> and leaving the cache as it is; with \<open>verify\<close> it calls \<open>load\<close>,
  returns \<open>True\<close> when that succeeds, and when that fails goes on to the download, whose
  outcome is then the result.
\<close>

theorem download_complete_cached:
  "fst (get_model_status (cache s) m) = complete \<longrightarrow>
     (\<not> v \<longrightarrow>
        fst (download_model X m v False s)
        \<and> calls (new_events s (snd (download_model X m v False s))) = []
        \<and> cache (snd (download_model X m v False s)) = cache s
        \<and> env (snd (download_model X m v False s)) = env s)
     \<and> (v \<and> fst (load X m (cache s) (env s)) \<longrightarrow>
        fst (download_model X m v False s)
        \<and> calls (new_events s (snd (download_model X m v False s))) = [Call_load m True])
     \<and> (v \<and> \<not> fst (load X m (cache s) (env s)) \<longrightarrow>
        (\<exists>fc. calls (new_events s (snd (download_model X m v False s))) = Call_load m False # fc
           \<and> download_outcome m v False (fst (download_model X m v False s)) fc))"
proof (cases "get_model_status (cache s) m")
  case (fields st mp files)
  show ?thesis
  proof (intro impI conjI)
    assume "fst (get_model_status (cache s) m) = complete" "\<not> v"
    with fields show "fst (download_model X m v False s)"
      "calls (new_events s (snd (download_model X m v False s))) = []"
      "cache (snd (download_model X m v False s)) = cache s"
      "env (snd (download_model X m v False s)) = env s"
      by (simp_all add: download_model_def new_events_def calls_def)
  next
    assume "fst (get_model_status (cache s) m) = complete"
      "v \<and> fst (load X m (cache s) (env s))"
    with fields show "fst (download_model X m v False s)"
      "calls (new_events s (snd (download_model X m v False s))) = [Call_load m True]"
      by (simp_all add: download_model_def call_load_eq new_events_def calls_def)
  next
    assume a: "fst (get_model_status (cache s) m) = complete"
      "v \<and> \<not> fst (load X m (cache s) (env s))"
    from failed_verify_redownloads [of s m False v X] a
    obtain t fc where t: "trace (snd (download_model X m v False s)) = trace s @ t"
      "calls t = Call_load m False # fc"
      "download_outcome m v False (fst (download_model X m v False s)) fc"
      by auto
    from t(1) have "new_events s (snd (download_model X m v False s)) = t"
      by (rule new_events_append)
    with t(2,3)
    show "\<exists>fc. calls (new_events s (snd (download_model X m v False s))) = Call_load m False # fc
           \<and> download_outcome m v False (fst (download_model X m v False s)) fc"
      by auto
  qed
qed

theorem download_complete_cached_witness:
  "fst (get_model_status (cache (fresh cache_done)) ''acme/Foo-7B'') = complete
   \<and> (fst (download_model X_ok ''acme/Foo-7B'' False False (fresh cache_done))
      \<and> calls (new_events (fresh cache_done)
                 (snd (download_model X_ok ''acme/Foo-7B'' False False (fresh cache_done)))) = []
      \<and> cache (snd (download_model X_ok ''acme/Foo-7B'' False False (fresh cache_done)))
          = cache_done)
   \<and> (fst (load X_ok ''acme/Foo-7B'' cache_done ())
      \<and> fst (download_model X_ok ''acme/Foo-7B'' True False (fresh cache_done))
      \<and> calls (new_events (fresh cache_done)
                 (snd (download_model X_ok ''acme/Foo-7B'' True False (fresh cache_done))))
          = [Call_load ''acme/Foo-7B'' True])
   \<and> (\<not> fst (load X_heal ''acme/Foo-7B'' cache_done False)
      \<and> (\<exists>fc. calls (new_events (unrepaired cache_done)
                  (snd (download_model X_heal ''acme/Foo-7B'' True False (unrepaired cache_done))))
                = Call_load ''acme/Foo-7B'' False # fc
             \<and> download_outcome ''acme/Foo-7B'' True False
                  (fst (download_model X_heal ''acme/Foo-7B'' True False (unrepaired cache_done)))
                  fc)
      \<and> fst (download_model X_heal ''acme/Foo-7B'' True False (unrepaired cache_done)))"
proof -
  have c: "cache (fresh cache_done) = cache_done" "env (fresh cache_done) = ()"
    "cache (unrepaired cache_done) = cache_done" "env (unrepaired cache_done) = False"
    by (simp_all add: fresh_def unrepaired_def)
  have st: "fst (get_model_status cache_done ''acme/Foo-7B'') = complete"
    by (simp add: status_done)
  have l: "fst (load X_ok ''acme/Foo-7B'' cache_done ())"
    "\<not> fst (load X_heal ''acme/Foo-7B'' cache_done False)"
    by (simp_all add: X_ok_def X_heal_def)
  note T1 = download_complete_cached [of "fresh cache_done" "''acme/Foo-7B''" False X_ok,
      unfolded c]
  note T2 = download_complete_cached [of "fresh cache_done" "''acme/Foo-7B''" True X_ok,
      unfolded c]
  note T3 = download_complete_cached [of "unrepaired cache_done" "''acme/Foo-7B''" True X_heal,
      unfolded c]
  from T1 st have 1: "fst (download_model X_ok ''acme/Foo-7B'' False False (fresh cache_done))
      \<and> calls (new_events (fresh cache_done)
                 (snd (download_model X_ok ''acme/Foo-7B'' False False (fresh cache_done)))) = []
      \<and> cache (snd (download_model X_ok ''acme/Foo-7B'' False False (fresh cache_done)))
          = cache_done"
    by simp
  from T2 st l(1) have 2: "fst (download_model X_ok ''acme/Foo-7B'' True False (fresh cache_done))
      \<and> calls (new_events (fresh cache_done)
                 (snd (download_model X_ok ''acme/Foo-7B'' True False (fresh cache_done))))
          = [Call_load ''acme/Foo-7B'' True]"
    by simp
  from T3 st l(2) have 3: "\<exists>fc. calls (new_events (unrepaired cache_done)
                  (snd (download_model X_heal ''acme/Foo-7B'' True False (unrepaired cache_done))))
                = Call_load ''acme/Foo-7B'' False # fc
             \<and> download_outcome ''acme/Foo-7B'' True False
                  (fst (download_model X_heal ''acme/Foo-7B'' True False (unrepaired cache_done)))
                  fc"
    by simp
  have 4: "fst (download_model X_heal ''acme/Foo-7B'' True False (unrepaired cache_done))"
    by (simp add: run_heal)
  from st l 1 2 3 4 show ?thesis
    by (simp only: c simp_thms)
qed

text \<open>
  C7. When the status is \<open>incomplete\<close>, \<open>download_model\<close> is the download run in the state
  that \<open>clean_incomplete_model\<close> leaves: the \<open>unlink\<close> calls on all incomplete files come
  first, the call of \<open>snapshot_download\<close> after them. Whatever the status, a call of
  \<open>snapshot_download\<close> that raises makes the result \<open>False\<close>, and with \<open>verify\<close> a call of
  \<open>load\<close> that raises after a successful \<open>snapshot_download\<close> makes the result \<open>False\<close>.
\<close>

theorem download_incomplete_and_failures:
  "(fst (get_model_status (cache s) m) = incomplete \<longrightarrow>
      download_model X m v f s
        = fetch_and_verify X m v f
            (snd (clean_incomplete_model X m
                    (emit (Found_incomplete (length (snd (snd (get_model_status (cache s) m))))) s)))
      \<and> (\<exists>pre fc. calls (new_events s (snd (download_model X m v f s))) = pre @ fc
            \<and> map unlink_target pre = map Some (snd (snd (get_model_status (cache s) m)))
            \<and> download_outcome m v f (fst (download_model X m v f s)) fc))
   \<and> (Call_snapshot_download m f False \<in> set (new_events s (snd (download_model X m v f s)))
        \<longrightarrow> \<not> fst (download_model X m v f s))
   \<and> (v \<and> (\<exists>pre. calls (new_events s (snd (download_model X m v f s)))
                    = pre @ [Call_snapshot_download m f True, Call_load m False])
        \<longrightarrow> \<not> fst (download_model X m v f s))"
proof (intro conjI impI)
  assume inc: "fst (get_model_status (cache s) m) = incomplete"
  obtain st mp files where fields: "get_model_status (cache s) m = (st, mp, files)"
    by (cases "get_model_status (cache s) m")
  with inc have st: "st = incomplete" by simp
  have dm: "download_model X m v f s = clean_then_fetch X m v f st files s"
    using fields st by (simp add: download_model_def)
  show "download_model X m v f s
        = fetch_and_verify X m v f
            (snd (clean_incomplete_model X m
                    (emit (Found_incomplete (length (snd (snd (get_model_status (cache s) m))))) s)))"
    using fields st by (simp add: dm clean_then_fetch_def)
  have "st = incomplete \<longrightarrow> fst (get_model_status (cache s) m) = incomplete"
    using inc by simp
  from clean_then_fetch_shape [OF this, of X v f files] st obtain t pre fc
    where t: "trace (snd (clean_then_fetch X m v f st files s)) = trace s @ t"
      "calls t = pre @ fc"
      "download_outcome m v f (fst (clean_then_fetch X m v f st files s)) fc"
      "map unlink_target pre = map Some (snd (snd (get_model_status (cache s) m)))"
    by blast
  from t(1) have "new_events s (snd (download_model X m v f s)) = t"
    unfolding dm by (rule new_events_append)
  with t(2-4) show "\<exists>pre fc. calls (new_events s (snd (download_model X m v f s))) = pre @ fc
            \<and> map unlink_target pre = map Some (snd (snd (get_model_status (cache s) m)))
            \<and> download_outcome m v f (fst (download_model X m v f s)) fc"
    unfolding dm by blast
next
  assume a: "Call_snapshot_download m f False \<in> set (new_events s (snd (download_model X m v f s)))"
  from download_model_shape [of X m v f s] obtain t
    where t: "trace (snd (download_model X m v f s)) = trace s @ t"
      "((calls t = [] \<or> calls t = [Call_load m True]) \<and> fst (download_model X m v f s))
        \<or> (\<exists>pre fc. calls t = pre @ fc
              \<and> download_outcome m v f (fst (download_model X m v f s)) fc
              \<and> (\<forall>e \<in> set pre. \<forall>d. e \<noteq> Call_snapshot_download m f d))"
    by blast
  from t(1) have "new_events s (snd (download_model X m v f s)) = t"
    by (rule new_events_append)
  with a have "Call_snapshot_download m f False \<in> set (calls t)"
    by (simp add: calls_def)
  with t(2) show "\<not> fst (download_model X m v f s)"
    by (auto simp: download_outcome_def)
next
  assume a: "v \<and> (\<exists>pre. calls (new_events s (snd (download_model X m v f s)))
                    = pre @ [Call_snapshot_download m f True, Call_load m False])"
  from download_model_shape [of X m v f s] obtain t
    where t: "trace (snd (download_model X m v f s)) = trace s @ t"
      "((calls t = [] \<or> calls t = [Call_load m True]) \<and> fst (download_model X m v f s))
        \<or> (\<exists>pre fc. calls t = pre @ fc
              \<and> download_outcome m v f (fst (download_model X m v f s)) fc
              \<and> (\<forall>e \<in> set pre. \<forall>d. e \<noteq> Call_snapshot_download m f d))"
    by blast
  from t(1) have "new_events s (snd (download_model X m v f s)) = t"
    by (rule new_events_append)
  with a obtain p where p: "calls t = p @ [Call_snapshot_download m f True, Call_load m False]"
    by auto
  then have l: "last (calls t) = Call_load m False" "calls t \<noteq> []" by simp_all
  from t(2) show "\<not> fst (download_model X m v f s)"
  proof
    assume "(calls t = [] \<or> calls t = [Call_load m True]) \<and> fst (download_model X m v f s)"
    with p show ?thesis by auto
  next
    assume "\<exists>pre fc. calls t = pre @ fc
              \<and> download_outcome m v f (fst (download_model X m v f s)) fc
              \<and> (\<forall>e \<in> set pre. \<forall>d. e \<noteq> Call_snapshot_download m f d)"
    then obtain pre fc where q: "calls t = pre @ fc"
      "download_outcome m v f (fst (download_model X m v f s)) fc"
      by blast
    from q(2) a have "fc \<noteq> []" "last fc = Call_load m (fst (download_model X m v f s))
         \<or> (\<exists>d. last fc = Call_snapshot_download m f d)"
      by (auto simp: download_outcome_def)
    with q(1) l show ?thesis by auto
  qed
qed

theorem download_incomplete_and_failures_witness:
  "fst (get_model_status (cache (fresh cache_partial2)) ''acme/Foo-7B'') = incomplete
   \<and> download_model X_offline ''acme/Foo-7B'' True False (fresh cache_partial2)
       = fetch_and_verify X_offline ''acme/Foo-7B'' True False
           (snd (clean_incomplete_model X_offline ''acme/Foo-7B''
                   (emit (Found_incomplete 2) (fresh cache_partial2))))
   \<and> Call_snapshot_download ''acme/Foo-7B'' False False
        \<in> set (new_events (fresh cache_partial2)
                 (snd (download_model X_offline ''acme/Foo-7B'' True False (fresh cache_partial2))))
   \<and> \<not> fst (download_model X_offline ''acme/Foo-7B'' True False (fresh cache_partial2))
   \<and> (\<exists>pre. calls (new_events (fresh cache_partial2)
                 (snd (download_model X_bad_load ''acme/Foo-7B'' True False (fresh cache_partial2))))
              = pre @ [Call_snapshot_download ''acme/Foo-7B'' False True,
                       Call_load ''acme/Foo-7B'' False])
   \<and> \<not> fst (download_model X_bad_load ''acme/Foo-7B'' True False (fresh cache_partial2))"
proof -
  have c: "cache (fresh cache_partial2) = cache_partial2"
    by (simp add: fresh_def)
  have tr: "trace (fresh cache_partial2) = []"
    by (simp add: fresh_def)
  have st: "fst (get_model_status cache_partial2 ''acme/Foo-7B'') = incomplete"
    "length (snd (snd (get_model_status cache_partial2 ''acme/Foo-7B''))) = 2"
    by (simp_all add: status_partial2)
  note T1 = download_incomplete_and_failures
      [of "fresh cache_partial2" "''acme/Foo-7B''" X_offline True False, unfolded c st]
  note T2 = download_incomplete_and_failures
      [of "fresh cache_partial2" "''acme/Foo-7B''" X_bad_load True False, unfolded c st]
  have h1: "Call_snapshot_download ''acme/Foo-7B'' False False
        \<in> set (new_events (fresh cache_partial2)
                 (snd (download_model X_offline ''acme/Foo-7B'' True False (fresh cache_partial2))))"
    by (simp add: run_offline new_events_def tr)
  have h2: "\<exists>pre. calls (new_events (fresh cache_partial2)
                 (snd (download_model X_bad_load ''acme/Foo-7B'' True False (fresh cache_partial2))))
              = pre @ [Call_snapshot_download ''acme/Foo-7B'' False True,
                       Call_load ''acme/Foo-7B'' False]"
    by (rule exI [of _ "[Call_unlink [''models--acme--Foo-7B'', ''blobs'', ''abc123.incomplete'']
                           True,
                         Call_unlink [''models--acme--Foo-7B'', ''blobs'', ''xyz789.incomplete'']
                           True]"])
       (simp add: run_bad_load new_events_def tr calls_def)
  from T1 have 1: "download_model X_offline ''acme/Foo-7B'' True False (fresh cache_partial2)
       = fetch_and_verify X_offline ''acme/Foo-7B'' True False
           (snd (clean_incomplete_model X_offline ''acme/Foo-7B''
                   (emit (Found_incomplete 2) (fresh cache_partial2))))"
    by blast
  from T1 h1 have 2:
    "\<not> fst (download_model X_offline ''acme/Foo-7B'' True False (fresh cache_partial2))"
    by blast
  from T2 h2 have 3:
    "\<not> fst (download_model X_bad_load ''acme/Foo-7B'' True False (fresh cache_partial2))"
    by blast
  from st(1) 1 2 3 h1 h2 show ?thesis
    by (simp only: c simp_thms)
qed

end
